theory Spec2Isabelle
  imports Complex_Main "HOL-Library.Multiset" "HOL-Library.Product_Lexorder"
begin

section \<open>Project model (render-service.ts, interfaces at lines 10-53)\<close>

text \<open>
  JavaScript numbers are modelled as rationals: the arithmetic the renderer does on them
  (a difference in the comparator, one sum per time window, one quotient per progress
  update) is taken exactly, without the rounding of doubles and without NaN.
  The conversion of a number to text inside a template literal is a parameter
  \<open>fmt\<close> of every function that builds a string.
\<close>

type_synonym num = rat
type_synonym numfmt = "num \<Rightarrow> string"

abbreviation apos :: char where "apos \<equiv> CHR 0x27"
abbreviation bslash :: char where "bslash \<equiv> CHR 0x5C"

datatype layer_type = Video | Image | Text | Audio

text \<open>
  The operand of a subtraction: a finite number, or NaN. A value of any type ends up as
  a number or as NaN when \<open>-\<close> converts it; the infinite numbers are left out.
\<close>

datatype jsnum = Num num | NaN

text \<open>
  The untyped \<open>style\<close> object, with the three fields the renderer reads. Nothing
  constrains \<open>zIndex\<close>: it is absent, or it is what the subtraction of the comparator
  makes of the value, a finite number (for a number, a numeric string, a boolean) or NaN
  (for a string such as \<open>top\<close>, an object).
\<close>

record layer_style =
  zIndex :: "jsnum option"
  fontSize :: "num option"
  color :: "string option"

record layer =
  l_id :: string
  l_type :: layer_type
  l_startTime :: num
  l_duration :: num
  l_x :: num
  l_y :: num
  l_width :: num
  l_height :: num
  l_content :: "string option"
  l_source :: "string option"
  l_style :: "layer_style option"

record scene =
  s_id :: string
  s_duration :: num
  s_layers :: "layer list"

record render_settings =
  rs_width :: num
  rs_height :: num
  rs_frameRate :: num
  rs_quality :: string

record render_job =
  projectId :: string
  userId :: string
  scenes :: "scene list"
  settings :: render_settings
  outputFormat :: string
  quality :: string

subsection \<open>The operator \<open>||\<close> on the values the renderer defaults\<close>

definition num_or :: "num \<Rightarrow> num \<Rightarrow> num" where
  "num_or v d = (if v = 0 then d else v)"

definition optnum_or :: "num option \<Rightarrow> num \<Rightarrow> num" where
  "optnum_or v d = (case v of None \<Rightarrow> d | Some n \<Rightarrow> num_or n d)"

definition str_or :: "string option \<Rightarrow> string \<Rightarrow> string" where
  "str_or v d = (case v of None \<Rightarrow> d | Some s \<Rightarrow> if s = [] then d else s)"

section \<open>Compositing planner (renderScene, lines 242-313, and its filters)\<close>

subsection \<open>Layer order (lines 260-263)\<close>

text \<open>\<open>a.style?.zIndex || 0\<close>, as the subtraction takes it.\<close>

definition zIndexOf :: "layer \<Rightarrow> jsnum" where
  "zIndexOf a =
     (case l_style a of
        None \<Rightarrow> Num 0
      | Some st \<Rightarrow>
          (case zIndex st of None \<Rightarrow> Num 0 | Some NaN \<Rightarrow> NaN | Some (Num n) \<Rightarrow> Num (num_or n 0)))"

fun jsSub :: "jsnum \<Rightarrow> jsnum \<Rightarrow> jsnum" where
  "jsSub (Num a) (Num b) = Num (a - b)"
| "jsSub a b = NaN"

definition compareLayers :: "layer \<Rightarrow> layer \<Rightarrow> jsnum" where
  "compareLayers a b =
     (if l_startTime a \<noteq> l_startTime b then Num (l_startTime a - l_startTime b)
      else jsSub (zIndexOf a) (zIndexOf b))"

text \<open>
  \<open>Array.prototype.sort\<close> with a comparator. The sort takes a result NaN as 0. It is
  stable, and written here as insertion from the right end, so that an element goes in
  front of the elements it does not exceed and that followed it in the input. Where the
  comparator is a consistent order every stable sort gives this result; where it is not
  (a NaN among the results), the standard leaves the order to the engine, and this is
  the order of one engine.
\<close>

fun sortCompare :: "jsnum \<Rightarrow> num" where
  "sortCompare NaN = 0"
| "sortCompare (Num v) = v"

fun insertBy :: "('a \<Rightarrow> 'a \<Rightarrow> jsnum) \<Rightarrow> 'a \<Rightarrow> 'a list \<Rightarrow> 'a list" where
  "insertBy cmp a [] = [a]"
| "insertBy cmp a (b # bs) =
     (if sortCompare (cmp a b) \<le> 0 then a # b # bs else b # insertBy cmp a bs)"

definition sortBy :: "('a \<Rightarrow> 'a \<Rightarrow> jsnum) \<Rightarrow> 'a list \<Rightarrow> 'a list" where
  "sortBy cmp xs = foldr (insertBy cmp) xs []"

definition sortedLayers :: "scene \<Rightarrow> layer list" where
  "sortedLayers sc = sortBy compareLayers (s_layers sc)"

text \<open>
  A layer whose z-index is a number, that number, and the pair of keys the comparator
  orders such layers by, in lexicographic order.
\<close>

definition zNumeric :: "layer \<Rightarrow> bool" where
  "zNumeric a = (zIndexOf a \<noteq> NaN)"

definition zNumber :: "layer \<Rightarrow> num" where
  "zNumber a = sortCompare (zIndexOf a)"

definition layerKey :: "layer \<Rightarrow> num \<times> num" where
  "layerKey a = (l_startTime a, zNumber a)"

subsection \<open>Filters (lines 347-379)\<close>

text \<open>
  The holes of the three template literals: an overlay of a scaled input (tag \<open>img\<close> or
  \<open>vid\<close>) and a text drawing. The last two fields are the arguments of
  \<open>between(t, _, _)\<close> in the \<open>enable\<close> option.
\<close>

datatype filter_op =
    Overlay string nat num num num num num num
  | Drawtext string num num num string num num

fun op_window :: "filter_op \<Rightarrow> num \<times> num" where
  "op_window (Overlay tag i w h x y lo hi) = (lo, hi)"
| "op_window (Drawtext txt x y fs fc lo hi) = (lo, hi)"

definition escapeQuotes :: "string \<Rightarrow> string" where
  "escapeQuotes s = concat (map (\<lambda>c. if c = apos then [bslash, apos] else [c]) s)"

fun showOp :: "numfmt \<Rightarrow> filter_op \<Rightarrow> string" where
  "showOp fmt (Overlay tag i w h x y lo hi) =
     ''['' @ fmt (of_nat i) @ '':v]scale='' @ fmt w @ '':'' @ fmt h
     @ ''['' @ tag @ fmt (of_nat i) @ ''];[0:v]['' @ tag @ fmt (of_nat i) @ '']overlay=''
     @ fmt x @ '':'' @ fmt y @ '':enable='' @ [apos] @ ''between(t,'' @ fmt lo @ '','' @ fmt hi
     @ '')'' @ [apos] @ ''[v'' @ fmt (of_nat i) @ ''];''"
| "showOp fmt (Drawtext txt x y fs fc lo hi) =
     ''drawtext=text='' @ [apos] @ escapeQuotes txt @ [apos] @ '':x='' @ fmt x @ '':y='' @ fmt y
     @ '':fontsize='' @ fmt fs @ '':fontcolor='' @ fc
     @ '':enable='' @ [apos] @ ''between(t,'' @ fmt lo @ '','' @ fmt hi @ '')'' @ [apos] @ '';''"

definition imageOp :: "layer \<Rightarrow> nat \<Rightarrow> render_settings \<Rightarrow> filter_op" where
  "imageOp l inputIndex st =
     (let x = num_or (l_x l) 0;
          y = num_or (l_y l) 0;
          width = num_or (l_width l) (rs_width st);
          height = num_or (l_height l) (rs_height st);
          startTime = num_or (l_startTime l) 0;
          duration = num_or (l_duration l) 5
      in Overlay ''img'' inputIndex width height x y startTime (startTime + duration))"

definition videoOp :: "layer \<Rightarrow> nat \<Rightarrow> render_settings \<Rightarrow> filter_op" where
  "videoOp l inputIndex st =
     (let x = num_or (l_x l) 0;
          y = num_or (l_y l) 0;
          width = num_or (l_width l) (rs_width st);
          height = num_or (l_height l) (rs_height st);
          startTime = num_or (l_startTime l) 0;
          duration = num_or (l_duration l) 5
      in Overlay ''vid'' inputIndex width height x y startTime (startTime + duration))"

definition styleFontSize :: "layer \<Rightarrow> num" where
  "styleFontSize l = (case l_style l of None \<Rightarrow> 24 | Some st \<Rightarrow> optnum_or (fontSize st) 24)"

definition styleColor :: "layer \<Rightarrow> string" where
  "styleColor l = (case l_style l of None \<Rightarrow> ''white'' | Some st \<Rightarrow> str_or (color st) ''white'')"

definition textOp :: "layer \<Rightarrow> render_settings \<Rightarrow> filter_op" where
  "textOp l st =
     (let x = num_or (l_x l) 0;
          y = num_or (l_y l) 0;
          fontSize = styleFontSize l;
          fontColor = styleColor l;
          startTime = num_or (l_startTime l) 0;
          duration = num_or (l_duration l) 5;
          text = str_or (l_content l) ''Text''
      in Drawtext text x y fontSize fontColor startTime (startTime + duration))"

definition getImageFilter :: "numfmt \<Rightarrow> layer \<Rightarrow> nat \<Rightarrow> render_settings \<Rightarrow> string" where
  "getImageFilter fmt l inputIndex st = showOp fmt (imageOp l inputIndex st)"

definition getVideoFilter :: "numfmt \<Rightarrow> layer \<Rightarrow> nat \<Rightarrow> render_settings \<Rightarrow> string" where
  "getVideoFilter fmt l inputIndex st = showOp fmt (videoOp l inputIndex st)"

definition getTextFilter :: "numfmt \<Rightarrow> layer \<Rightarrow> render_settings \<Rightarrow> string" where
  "getTextFilter fmt l st = showOp fmt (textOp l st)"

definition getBitrate :: "string \<Rightarrow> string" where
  "getBitrate q =
     (if q = ''draft'' then ''500k'' else if q = ''standard'' then ''2000k''
      else if q = ''high'' then ''5000k'' else if q = ''ultra'' then ''10000k''
      else ''2000k'')"

definition getPriority :: "string \<Rightarrow> nat" where
  "getPriority q =
     (if q = ''draft'' then 1 else if q = ''standard'' then 2
      else if q = ''high'' then 3 else if q = ''ultra'' then 4
      else 2)"

subsection \<open>The command of one scene (lines 243-296)\<close>

text \<open>
  What the service throws: the two errors of the control calls, the TypeError of
  \<open>command.input\<close> on an undefined source, and the failures of the tool, the file
  system and the store.
\<close>

datatype error =
    JobNotFound
  | RemoveError
  | InputTypeError
  | SceneRenderError nat
  | ConcatError
  | ReadError string
  | UploadError
  | StatError string

datatype ff_input = Lavfi string | Media string

record ffmpeg_command =
  c_size :: string
  c_fps :: num
  c_videoBitrate :: string
  c_inputs :: "ff_input list"
  c_complexFilter :: "string option"
  c_output :: string

text \<open>The variables of the loop over the sorted layers (lines 256-288).\<close>

record plan_state =
  ps_inputs :: "ff_input list"
  filterComplex :: string
  inputIndex :: nat

text \<open>
  \<open>command.input(layer.source!)\<close>: the library throws a TypeError on an undefined
  source, and takes any string.
\<close>

definition addInput :: "string option \<Rightarrow> plan_state \<Rightarrow> error + plan_state" where
  "addInput src ps =
     (case src of
        None \<Rightarrow> Inl InputTypeError
      | Some s \<Rightarrow> Inr (ps\<lparr>ps_inputs := ps_inputs ps @ [Media s]\<rparr>))"

text \<open>One turn of the loop (lines 266-287): the input first, then the filter.\<close>

definition addLayer ::
  "numfmt \<Rightarrow> render_settings \<Rightarrow> plan_state \<Rightarrow> layer \<Rightarrow> error + plan_state" where
  "addLayer fmt st ps l =
     (case l_type l of
        Image \<Rightarrow>
          (case addInput (l_source l) ps of
             Inl e \<Rightarrow> Inl e
           | Inr ps1 \<Rightarrow>
               Inr (ps1\<lparr>filterComplex := filterComplex ps1 @ getImageFilter fmt l (inputIndex ps1) st,
                        inputIndex := inputIndex ps1 + 1\<rparr>))
      | Video \<Rightarrow>
          (case addInput (l_source l) ps of
             Inl e \<Rightarrow> Inl e
           | Inr ps1 \<Rightarrow>
               Inr (ps1\<lparr>filterComplex := filterComplex ps1 @ getVideoFilter fmt l (inputIndex ps1) st,
                        inputIndex := inputIndex ps1 + 1\<rparr>))
      | Text \<Rightarrow> Inr (ps\<lparr>filterComplex := filterComplex ps @ getTextFilter fmt l st\<rparr>)
      | Audio \<Rightarrow>
          (case addInput (l_source l) ps of
             Inl e \<Rightarrow> Inl e
           | Inr ps1 \<Rightarrow> Inr (ps1\<lparr>inputIndex := inputIndex ps1 + 1\<rparr>)))"

text \<open>The loop over the sorted layers: the first error ends it.\<close>

fun addLayers ::
  "numfmt \<Rightarrow> render_settings \<Rightarrow> plan_state \<Rightarrow> layer list \<Rightarrow> error + plan_state" where
  "addLayers fmt st ps [] = Inr ps"
| "addLayers fmt st ps (l # ls) =
     (case addLayer fmt st ps l of
        Inl e \<Rightarrow> Inl e
      | Inr ps1 \<Rightarrow> addLayers fmt st ps1 ls)"

text \<open>
  \<open>path.join\<close> of a directory and a name: the separators at the end of the directory
  are dropped. The directory is otherwise taken as normalised (no empty segment, no
  \<open>.\<close> or \<open>..\<close>), and so is the name.
\<close>

definition pathJoin :: "string \<Rightarrow> string \<Rightarrow> string" where
  "pathJoin dir name =
     (if dir = [] then name
      else rev (dropWhile (\<lambda>c. c = CHR ''/'') (rev dir)) @ ''/'' @ name)"

definition background :: "numfmt \<Rightarrow> scene \<Rightarrow> render_settings \<Rightarrow> ff_input" where
  "background fmt sc st =
     Lavfi (''color=black:size='' @ fmt (rs_width st) @ ''x'' @ fmt (rs_height st)
            @ '':duration='' @ fmt (s_duration sc))"

text \<open>
  The synchronous part of \<open>renderScene\<close>: the command that is handed to the tool, or the
  error thrown while it is built, and the scene as the call leaves it (\<open>sort\<close> reorders
  \<open>scene.layers\<close> in place, before the loop).
\<close>

definition sceneCommand ::
  "numfmt \<Rightarrow> scene \<Rightarrow> render_settings \<Rightarrow> string \<Rightarrow> nat
     \<Rightarrow> (error + ffmpeg_command) \<times> scene" where
  "sceneCommand fmt sc st workDir sceneIndex =
     (let sceneOutput = pathJoin workDir (''scene_'' @ fmt (of_nat sceneIndex) @ ''.mp4'');
          sorted = sortedLayers sc
      in (case addLayers fmt st
                 \<lparr>ps_inputs = [background fmt sc st], filterComplex = [], inputIndex = 1\<rparr>
                 sorted of
            Inl e \<Rightarrow> Inl e
          | Inr ps \<Rightarrow>
              Inr \<lparr>c_size = fmt (rs_width st) @ ''x'' @ fmt (rs_height st),
                   c_fps = rs_frameRate st,
                   c_videoBitrate = getBitrate (rs_quality st),
                   c_inputs = ps_inputs ps,
                   c_complexFilter =
                     (if filterComplex ps = [] then None else Some (filterComplex ps)),
                   c_output = sceneOutput\<rparr>,
          sc\<lparr>s_layers := sorted\<rparr>))"

text \<open>A layer that needs no input, or has a source for it.\<close>

definition hasSource :: "layer \<Rightarrow> bool" where
  "hasSource l = (l_type l = Text \<or> l_source l \<noteq> None)"

text \<open>
  The operations of the layers of a scene, one per visual layer, in the order the loop
  emits them when every input is accepted.
\<close>

fun layerOps :: "render_settings \<Rightarrow> nat \<Rightarrow> layer list \<Rightarrow> filter_op list" where
  "layerOps st i [] = []"
| "layerOps st i (l # ls) =
     (case l_type l of
        Image \<Rightarrow> imageOp l i st # layerOps st (i + 1) ls
      | Video \<Rightarrow> videoOp l i st # layerOps st (i + 1) ls
      | Text \<Rightarrow> textOp l st # layerOps st i ls
      | Audio \<Rightarrow> layerOps st (i + 1) ls)"

definition sceneOps :: "scene \<Rightarrow> render_settings \<Rightarrow> filter_op list" where
  "sceneOps sc st = layerOps st 1 (sortedLayers sc)"


definition visual :: "layer \<Rightarrow> bool" where
  "visual l = (l_type l \<noteq> Audio)"

text \<open>The two arguments of \<open>between\<close> that the three filters compute for a layer.\<close>

definition layerWindow :: "layer \<Rightarrow> num \<times> num" where
  "layerWindow l =
     (num_or (l_startTime l) 0, num_or (l_startTime l) 0 + num_or (l_duration l) 5)"

text \<open>
  The media tool's expression \<open>between(x, min, max)\<close> is 1 when \<open>min \<le> x \<le> max\<close> and 0
  otherwise; an operation is enabled at the instants where it is 1.
\<close>

definition between :: "num \<Rightarrow> num \<Rightarrow> num \<Rightarrow> bool" where
  "between t lo hi = (lo \<le> t \<and> t \<le> hi)"

definition op_active :: "filter_op \<Rightarrow> num \<Rightarrow> bool" where
  "op_active op t = between t (fst (op_window op)) (snd (op_window op))"

section \<open>Request schema (renderJobSchema, server.ts lines 158-198)\<close>





section \<open>Jobs, the queue and the worker (render-service.ts lines 55-240, 315-345, 401-431)\<close>

datatype job_status = Queued | Processing | Completed | Failed | Cancelled

text \<open>The calls a job makes on the outside, in the order it makes them.\<close>

datatype event =
    StatusSet string job_status
  | ProgressSet string num
  | Mkdir string
  | RunFfmpeg ffmpeg_command
  | WriteFile string string
  | RunConcat string string
  | UploadFile string string string string
  | Rm string

text \<open>
  What the outside answers during one execution of a job: which tool runs fail, whether
  the upload and the removal fail, the clock, the store's public address of a file name;
  with the number conversion and the configured temporary directory.
  Status and progress writes, \<open>mkdir\<close> and \<open>writeFile\<close> are taken to succeed.
\<close>

record env =
  numFmt :: numfmt
  tempDir :: string
  sceneFails :: "nat \<Rightarrow> bool"
  concatFails :: bool
  uploadFails :: bool
  rmFails :: bool
  now :: int
  publicUrl :: "string \<Rightarrow> string"

text \<open>
  The state that outlives a call: the paths on disk, the \<open>render_jobs\<close> table (status by
  job id), the jobs the queue holds (by id, each with its \<open>progress\<close>), and the calls
  made so far.
\<close>

record world =
  disk :: "string list"
  rows :: "string \<rightharpoonup> job_status"
  queue :: "string \<rightharpoonup> num"
  trace :: "event list"

record job =
  j_id :: string
  j_data :: render_job
  attemptsMade :: nat

record backoff_options =
  bo_type :: string
  bo_delay :: nat

record job_options =
  removeOnComplete :: nat
  removeOnFail :: nat
  attempts :: nat
  backoff :: backoff_options

definition defaultJobOptions :: job_options where
  "defaultJobOptions =
     \<lparr>removeOnComplete = 10, removeOnFail = 5, attempts = 3,
      backoff = \<lparr>bo_type = ''exponential'', bo_delay = 5000\<rparr>\<rparr>"

record render_result =
  r_success :: bool
  r_outputUrl :: string
  r_projectId :: string
  r_jobId :: string

definition emit :: "event \<Rightarrow> world \<Rightarrow> world" where
  "emit e w = w\<lparr>trace := trace w @ [e]\<rparr>"

definition updateJobStatus :: "string \<Rightarrow> job_status \<Rightarrow> world \<Rightarrow> world" where
  "updateJobStatus jobId status w =
     emit (StatusSet jobId status)
       (w\<lparr>rows := (case rows w jobId of None \<Rightarrow> rows w
                                     | Some old \<Rightarrow> (rows w)(jobId \<mapsto> status))\<rparr>)"

text \<open>\<open>job.updateProgress\<close>: the progress of the job in the queue, if the queue holds it.\<close>

definition updateProgress :: "string \<Rightarrow> num \<Rightarrow> world \<Rightarrow> world" where
  "updateProgress jobId p w =
     emit (ProgressSet jobId p)
       (w\<lparr>queue := (case queue w jobId of None \<Rightarrow> queue w
                                        | Some old \<Rightarrow> (queue w)(jobId \<mapsto> p))\<rparr>)"




text \<open>
  \<open>cancelRender\<close> (lines 154-169); \<open>removeFails\<close> tells whether the queue rejects the
  removal of the job, as it does for a job that a worker holds locked.
\<close>

definition cancelRender :: "bool \<Rightarrow> string \<Rightarrow> world \<Rightarrow> world \<times> (error + bool)" where
  "cancelRender removeFails jobId w =
     (case queue w jobId of
        None \<Rightarrow> (w, Inl JobNotFound)
      | Some job \<Rightarrow>
          if removeFails then (w, Inl RemoveError)
          else (updateJobStatus jobId Cancelled (w\<lparr>queue := (queue w)(jobId := None)\<rparr>),
                Inr True))"

text \<open>
  \<open>renderScene\<close> (lines 242-313): an error thrown while the command is built rejects the
  promise before the tool is started; otherwise the tool runs, and its end or its error
  settles the promise.
\<close>

definition renderScene ::
  "env \<Rightarrow> scene \<Rightarrow> render_settings \<Rightarrow> string \<Rightarrow> nat \<Rightarrow> world \<Rightarrow> world \<times> (error + string)" where
  "renderScene ev sc st workDir sceneIndex w =
     (case fst (sceneCommand (numFmt ev) sc st workDir sceneIndex) of
        Inl e \<Rightarrow> (w, Inl e)
      | Inr cmd \<Rightarrow>
          (let w1 = emit (RunFfmpeg cmd) w
           in if sceneFails ev sceneIndex then (w1, Inl (SceneRenderError sceneIndex))
              else (w1\<lparr>disk := disk w1 @ [c_output cmd]\<rparr>, Inr (c_output cmd))))"

fun joinLines :: "string list \<Rightarrow> string" where
  "joinLines [] = []"
| "joinLines [a] = a"
| "joinLines (a # b # cs) = a @ [CHR 0x0A] @ joinLines (b # cs)"

definition concatenateScenes ::
  "env \<Rightarrow> string list \<Rightarrow> render_settings \<Rightarrow> string \<Rightarrow> string \<Rightarrow> world
     \<Rightarrow> world \<times> (error + string)" where
  "concatenateScenes ev sceneFiles st workDir format w =
     (let outputFile = pathJoin workDir (''final_output.'' @ format);
          listFile = pathJoin workDir ''scenes.txt'';
          fileList = joinLines (map (\<lambda>file. ''file '' @ [apos] @ file @ [apos]) sceneFiles);
          w1 = emit (WriteFile listFile fileList) (w\<lparr>disk := disk w @ [listFile]\<rparr>);
          w2 = emit (RunConcat listFile outputFile) w1
      in if concatFails ev then (w2, Inl ConcatError)
         else (w2\<lparr>disk := disk w2 @ [outputFile]\<rparr>, Inr outputFile))"

definition uploadFinalVideo ::
  "env \<Rightarrow> string \<Rightarrow> string \<Rightarrow> string \<Rightarrow> world \<Rightarrow> world \<times> (error + string)" where
  "uploadFinalVideo ev filePath pid uid w =
     (let fileName = pid @ ''_'' @ numFmt ev (of_int (now ev)) @ ''.mp4''
      in if filePath \<notin> set (disk w) then (w, Inl (ReadError filePath))
         else
           (let w1 = emit (UploadFile ''videos'' fileName filePath ''video/mp4'') w
            in if uploadFails ev then (w1, Inl UploadError)
               else (w1, Inr (publicUrl ev fileName))))"

definition inside :: "string \<Rightarrow> string \<Rightarrow> bool" where
  "inside dir p = (p = dir \<or> take (length dir + 1) p = dir @ ''/'')"

definition cleanup :: "env \<Rightarrow> string \<Rightarrow> world \<Rightarrow> world" where
  "cleanup ev workDir w =
     (if rmFails ev then emit (Rm workDir) w
      else emit (Rm workDir) (w\<lparr>disk := filter (\<lambda>p. \<not> inside workDir p) (disk w)\<rparr>))"

definition stat :: "string \<Rightarrow> world \<Rightarrow> error + unit" where
  "stat p w = (if p \<in> set (disk w) then Inr () else Inl (StatError p))"

text \<open>The loop over the scenes of a job (lines 200-208), from index \<open>i\<close> on.\<close>

fun renderScenes ::
  "env \<Rightarrow> string \<Rightarrow> render_settings \<Rightarrow> string \<Rightarrow> nat \<Rightarrow> nat \<Rightarrow> scene list \<Rightarrow> string list
     \<Rightarrow> world \<Rightarrow> world \<times> (error + string list)" where
  "renderScenes ev jobId st workDir n i [] sceneFiles w = (w, Inr sceneFiles)"
| "renderScenes ev jobId st workDir n i (sc # rest) sceneFiles w =
     (case renderScene ev sc st workDir i w of
        (w1, Inl e) \<Rightarrow> (w1, Inl e)
      | (w1, Inr sceneFile) \<Rightarrow>
          renderScenes ev jobId st workDir n (i + 1) rest (sceneFiles @ [sceneFile])
            (updateProgress jobId (5 + (of_nat i / of_nat n) * 80) w1))"

definition workDirOf :: "env \<Rightarrow> job \<Rightarrow> string" where
  "workDirOf ev jb = pathJoin (tempDir ev) (''render_'' @ j_id jb)"

text \<open>
  The \<open>try\<close> block of \<open>processRenderJob\<close> (lines 188-233), in the four steps the
  comments of the source mark, last step first. An error of a step ends the block.
\<close>

text \<open>Cleanup, and the final status update with the size of the output (lines 218-233).\<close>

definition finishJob ::
  "env \<Rightarrow> job \<Rightarrow> string \<Rightarrow> string \<Rightarrow> string \<Rightarrow> world \<Rightarrow> world \<times> (error + render_result)" where
  "finishJob ev jb workDir finalOutput url w =
     (let w1 = updateProgress (j_id jb) 100 (cleanup ev workDir w)
      in case stat finalOutput w1 of
           Inl e \<Rightarrow> (w1, Inl e)
         | Inr u \<Rightarrow>
             (updateJobStatus (j_id jb) Completed w1,
              Inr \<lparr>r_success = True, r_outputUrl = url,
                   r_projectId = projectId (j_data jb), r_jobId = j_id jb\<rparr>))"

text \<open>Upload to storage (lines 214-216).\<close>

definition publishJob ::
  "env \<Rightarrow> job \<Rightarrow> string \<Rightarrow> string \<Rightarrow> world \<Rightarrow> world \<times> (error + render_result)" where
  "publishJob ev jb workDir finalOutput w =
     (case uploadFinalVideo ev finalOutput (projectId (j_data jb)) (userId (j_data jb))
             (updateProgress (j_id jb) 95 w) of
        (w1, Inl e) \<Rightarrow> (w1, Inl e)
      | (w1, Inr url) \<Rightarrow> finishJob ev jb workDir finalOutput url w1)"

text \<open>Concatenate scenes (lines 210-212).\<close>

definition assembleJob ::
  "env \<Rightarrow> job \<Rightarrow> string \<Rightarrow> string list \<Rightarrow> world \<Rightarrow> world \<times> (error + render_result)" where
  "assembleJob ev jb workDir sceneFiles w =
     (case concatenateScenes ev sceneFiles (settings (j_data jb)) workDir
             (outputFormat (j_data jb)) (updateProgress (j_id jb) 85 w) of
        (w1, Inl e) \<Rightarrow> (w1, Inl e)
      | (w1, Inr finalOutput) \<Rightarrow> publishJob ev jb workDir finalOutput w1)"

text \<open>Status, working directory and the scenes (lines 189-208).\<close>

definition tryBlock :: "env \<Rightarrow> job \<Rightarrow> world \<Rightarrow> world \<times> (error + render_result)" where
  "tryBlock ev jb w =
     (let d = j_data jb;
          w1 = updateJobStatus (j_id jb) Processing w;
          w2 = updateProgress (j_id jb) 5 w1;
          workDir = workDirOf ev jb;
          w3 = emit (Mkdir workDir) (w2\<lparr>disk := List.insert workDir (disk w2)\<rparr>)
      in case renderScenes ev (j_id jb) (settings d) workDir (length (scenes d)) 0 (scenes d) [] w3 of
           (w4, Inl e) \<Rightarrow> (w4, Inl e)
         | (w4, Inr sceneFiles) \<Rightarrow> assembleJob ev jb workDir sceneFiles w4)"

text \<open>\<open>processRenderJob\<close>: the block, and the \<open>catch\<close> that records the failure and rethrows.\<close>

definition processRenderJob :: "env \<Rightarrow> job \<Rightarrow> world \<Rightarrow> world \<times> (error + render_result)" where
  "processRenderJob ev jb w =
     (case tryBlock ev jb w of
        (w', Inl e) \<Rightarrow> (updateJobStatus (j_id jb) Failed w', Inl e)
      | (w', Inr r) \<Rightarrow> (w', Inr r))"

text \<open>The calls an execution adds to the trace, and the progress values among them.\<close>

definition newEvents :: "world \<Rightarrow> world \<Rightarrow> event list" where
  "newEvents w w' = drop (length (trace w)) (trace w')"

fun progressOf :: "event list \<Rightarrow> num list" where
  "progressOf [] = []"
| "progressOf (ProgressSet jobId p # es) = p # progressOf es"
| "progressOf (e # es) = progressOf es"

fun statusesOf :: "event list \<Rightarrow> job_status list" where
  "statusesOf [] = []"
| "statusesOf (StatusSet jobId s # es) = s # statusesOf es"
| "statusesOf (e # es) = statusesOf es"

fun uploadsOf :: "event list \<Rightarrow> (string \<times> string \<times> string) list" where
  "uploadsOf [] = []"
| "uploadsOf (UploadFile bucket name path ctype # es) = (name, path, ctype) # uploadsOf es"
| "uploadsOf (e # es) = uploadsOf es"


section \<open>Reading a quoted option value back\<close>

text \<open>
  The text of a drawing stands between two apostrophes. Two ways of reading such a
  value, both starting behind the opening apostrophe and giving the value and what
  follows the closing apostrophe: the tool's documented rule, where everything up to the
  next apostrophe is literal, and the rule the replacement \<open>\\'\<close> presupposes, where a
  backslash takes the next character literally.
\<close>

fun readLiteral :: "string \<Rightarrow> (string \<times> string) option" where
  "readLiteral [] = None"
| "readLiteral (c # cs) =
     (if c = apos then Some ([], cs)
      else map_option (\<lambda>(v, r). (c # v, r)) (readLiteral cs))"

fun readEscaped :: "string \<Rightarrow> (string \<times> string) option" where
  "readEscaped [] = None"
| "readEscaped [c] = (if c = apos then Some ([], []) else None)"
| "readEscaped (c # d # cs) =
     (if c = apos then Some ([], d # cs)
      else if c = bslash then map_option (\<lambda>(v, r). (d # v, r)) (readEscaped cs)
      else map_option (\<lambda>(v, r). (c # v, r)) (readEscaped (d # cs)))"

text \<open>What follows the text value in the template of \<open>getTextFilter\<close>.\<close>

fun textTail :: "numfmt \<Rightarrow> filter_op \<Rightarrow> string" where
  "textTail fmt (Drawtext txt x y fs fc lo hi) =
     '':x='' @ fmt x @ '':y='' @ fmt y @ '':fontsize='' @ fmt fs @ '':fontcolor='' @ fc
     @ '':enable='' @ [apos] @ ''between(t,'' @ fmt lo @ '','' @ fmt hi @ '')'' @ [apos] @ '';''"
| "textTail fmt (Overlay tag i w h x y lo hi) = []"

section \<open>Concrete inputs\<close>

text \<open>The decimal digits of an integer-valued number, as a template literal prints it.\<close>

function digits :: "int \<Rightarrow> string" where
  "digits k =
     (if k < 10 then [''0123456789'' ! nat k]
      else digits (k div 10) @ [''0123456789'' ! nat (k mod 10)])"
  by pat_completeness auto
termination
  by (relation "measure nat") auto

definition fmtInt :: numfmt where
  "fmtInt r = (if r < 0 then ''-'' @ digits (- \<lfloor>r\<rfloor>) else digits \<lfloor>r\<rfloor>)"

definition std_settings :: render_settings where
  "std_settings = \<lparr>rs_width = 1280, rs_height = 720, rs_frameRate = 30, rs_quality = ''standard''\<rparr>"

definition text_layer :: "string \<Rightarrow> string \<Rightarrow> jsnum option \<Rightarrow> layer" where
  "text_layer i txt z =
     \<lparr>l_id = i, l_type = Text, l_startTime = 0, l_duration = 5, l_x = 0, l_y = 0,
      l_width = 100, l_height = 50, l_content = Some txt, l_source = None,
      l_style = Some \<lparr>zIndex = z, fontSize = None, color = None\<rparr>\<rparr>"

definition image_layer :: "string \<Rightarrow> num \<Rightarrow> num \<Rightarrow> string option \<Rightarrow> layer" where
  "image_layer i start dur src =
     \<lparr>l_id = i, l_type = Image, l_startTime = start, l_duration = dur, l_x = 0, l_y = 0,
      l_width = 100, l_height = 50, l_content = None, l_source = src, l_style = None\<rparr>"

definition late_scene :: scene where
  "late_scene =
     \<lparr>s_id = ''s1'', s_duration = 3, s_layers = [image_layer ''a'' 10 2 (Some ''a.png'')]\<rparr>"

definition tie_scene :: scene where
  "tie_scene =
     \<lparr>s_id = ''s1'', s_duration = 10,
      s_layers = [text_layer ''b'' ''second'' None, text_layer ''a'' ''first'' None]\<rparr>"

definition z_scene :: scene where
  "z_scene =
     \<lparr>s_id = ''s1'', s_duration = 10,
      s_layers = [text_layer ''top'' ''above'' (Some (Num 1)),
                  text_layer ''bottom'' ''below'' (Some (Num 0))]\<rparr>"

text \<open>Three layers starting together, the middle one with the z-index \<open>top\<close>.\<close>

definition junk_scene :: scene where
  "junk_scene =
     \<lparr>s_id = ''s1'', s_duration = 10,
      s_layers = [text_layer ''one'' ''z1'' (Some (Num 1)), text_layer ''junk'' ''ztop'' (Some NaN),
                  text_layer ''zero'' ''z0'' (Some (Num 0))]\<rparr>"

definition hello_scene :: scene where
  "hello_scene =
     \<lparr>s_id = ''s1'', s_duration = 10, s_layers = [text_layer ''t'' ''Hello'' None]\<rparr>"


definition text_nosrc_scene :: scene where
  "text_nosrc_scene =
     \<lparr>s_id = ''s1'', s_duration = 10,
      s_layers = [text_layer ''t'' ''Hello'' None, image_layer ''i'' 0 5 None]\<rparr>"

definition job_of :: "scene list \<Rightarrow> string \<Rightarrow> job" where
  "job_of scs format =
     \<lparr>j_id = ''j1'',
      j_data = \<lparr>projectId = ''p1'', userId = ''u1'', scenes = scs, settings = std_settings,
                outputFormat = format, quality = ''standard''\<rparr>,
      attemptsMade = 0\<rparr>"

definition env_ok :: env where
  "env_ok =
     \<lparr>numFmt = fmtInt, tempDir = ''/app/temp'', sceneFails = (\<lambda>i. False),
      concatFails = False, uploadFails = False, rmFails = False, now = 1700000000000,
      publicUrl = (\<lambda>name. ''https://store/videos/'' @ name)\<rparr>"

definition world_of :: "job_status \<Rightarrow> world" where
  "world_of st = \<lparr>disk = [], rows = [''j1'' \<mapsto> st], queue = [''j1'' \<mapsto> 0], trace = []\<rparr>"



definition env_scene_fails :: env where
  "env_scene_fails = env_ok\<lparr>sceneFails := (\<lambda>i. i = 0)\<rparr>"

definition env_concat_fails :: env where
  "env_concat_fails = env_ok\<lparr>concatFails := True\<rparr>"


section \<open>The layer order\<close>

lemma mset_insertBy: "mset (insertBy cmp a bs) = add_mset a (mset bs)"
  by (induction bs) simp_all

lemma mset_sortBy: "mset (sortBy cmp xs) = mset xs"
  unfolding sortBy_def by (induction xs) (simp_all add: mset_insertBy)

lemma sortedLayers_mset: "mset (sortedLayers sc) = mset (s_layers sc)"
  by (simp add: sortedLayers_def mset_sortBy)

lemma sortedLayers_set: "set (sortedLayers sc) = set (s_layers sc)"
  using sortedLayers_mset [of sc] by (metis set_mset_mset)

subsection \<open>Sorting again changes nothing\<close>

text \<open>
  Whatever the z-indices are, a layer that the comparator puts behind another is not put
  in front of it the other way round; so the insertion leaves every pair of neighbours
  in the comparator's order, and sorting such a list again returns it.
\<close>

lemma compareLayers_swap:
  "\<not> sortCompare (compareLayers a b) \<le> 0 \<Longrightarrow> sortCompare (compareLayers b a) \<le> 0"
  by (cases "zIndexOf a"; cases "zIndexOf b") (auto simp: compareLayers_def split: if_splits)

lemma insertBy_neighbours:
  "successively (\<lambda>a b. sortCompare (compareLayers a b) \<le> 0) bs \<Longrightarrow>
     successively (\<lambda>a b. sortCompare (compareLayers a b) \<le> 0) (insertBy compareLayers a bs)"
proof (induction bs)
  case Nil
  then show ?case by simp
next
  case (Cons b bs)
  show ?case
  proof (cases "sortCompare (compareLayers a b) \<le> 0")
    case True
    then show ?thesis using Cons.prems by simp
  next
    case False
    then have ba: "sortCompare (compareLayers b a) \<le> 0" by (rule compareLayers_swap)
    have tl: "successively (\<lambda>a b. sortCompare (compareLayers a b) \<le> 0) (insertBy compareLayers a bs)"
      using Cons by (cases bs) simp_all
    show ?thesis
    proof (cases bs)
      case Nil
      then show ?thesis using False ba by simp
    next
      case (Cons c cs)
      then show ?thesis using False ba tl Cons.prems by auto
    qed
  qed
qed

lemma sortBy_neighbours:
  "successively (\<lambda>a b. sortCompare (compareLayers a b) \<le> 0) (sortBy compareLayers xs)"
  unfolding sortBy_def by (induction xs) (simp_all add: insertBy_neighbours)

lemma sortBy_neighbours_id:
  "successively (\<lambda>a b. sortCompare (compareLayers a b) \<le> 0) xs \<Longrightarrow> sortBy compareLayers xs = xs"
proof (induction xs)
  case Nil
  then show ?case by (simp add: sortBy_def)
next
  case (Cons x xs)
  then have "sortBy compareLayers xs = xs" by (cases xs) simp_all
  then have "sortBy compareLayers (x # xs) = insertBy compareLayers x xs"
    by (simp add: sortBy_def)
  then show ?case using Cons.prems by (cases xs) simp_all
qed

lemma sortBy_idem: "sortBy compareLayers (sortBy compareLayers xs) = sortBy compareLayers xs"
  by (rule sortBy_neighbours_id) (rule sortBy_neighbours)

subsection \<open>Numeric z-indices\<close>

lemma compareLayers_le:
  "zNumeric a \<Longrightarrow> zNumeric b \<Longrightarrow>
     sortCompare (compareLayers a b) \<le> 0 \<longleftrightarrow> layerKey a \<le> layerKey b"
  by (cases "zIndexOf a"; cases "zIndexOf b")
     (auto simp: compareLayers_def layerKey_def zNumeric_def zNumber_def)

lemma insertBy_insort:
  "zNumeric a \<Longrightarrow> list_all zNumeric bs \<Longrightarrow>
     insertBy compareLayers a bs = insort_key layerKey a bs"
  by (induction bs) (simp_all add: compareLayers_le)

lemma sortBy_sort_key:
  "list_all zNumeric xs \<Longrightarrow> sortBy compareLayers xs = sort_key layerKey xs"
proof (induction xs)
  case Nil
  then show ?case by (simp add: sortBy_def)
next
  case (Cons x xs)
  then have ih: "sortBy compareLayers xs = sort_key layerKey xs" by simp
  have "list_all zNumeric (sort_key layerKey xs)"
    using Cons.prems by (simp add: list_all_iff)
  then show ?case
    using Cons.prems ih insertBy_insort [of x "sort_key layerKey xs"]
    by (simp add: sortBy_def sort_key_def)
qed

lemma sortedLayers_sorted:
  "list_all zNumeric (s_layers sc) \<Longrightarrow> sorted (map layerKey (sortedLayers sc))"
  by (simp add: sortedLayers_def sortBy_sort_key)

lemma sortedLayers_stable:
  "list_all zNumeric (s_layers sc) \<Longrightarrow>
     filter (\<lambda>l. layerKey l = k) (sortedLayers sc) = filter (\<lambda>l. layerKey l = k) (s_layers sc)"
  by (simp add: sortedLayers_def sortBy_sort_key sort_key_stable)

lemma layerKey_le:
  "layerKey a \<le> layerKey b \<longleftrightarrow>
     l_startTime a < l_startTime b \<or> l_startTime a = l_startTime b \<and> zNumber a \<le> zNumber b"
  by (auto simp: layerKey_def)

lemma compareLayers_NaN:
  "l_startTime a = l_startTime b \<Longrightarrow> \<not> zNumeric a \<or> \<not> zNumeric b \<Longrightarrow> compareLayers a b = NaN"
  by (cases "zIndexOf a"; cases "zIndexOf b") (auto simp: compareLayers_def zNumeric_def)

text \<open>
  Claim C2, as the code has it: the sorted layers are a rearrangement of the scene's
  layers. In a scene where the z-index of every layer is absent or a finite number, they are
  ascending in startTime and, among equal startTimes, ascending in z-index (default 0),
  so that of two layers with the same startTime the one with the lower z-index comes
  first; the comparator never looks at the layer id, and layers that agree in startTime
  and z-index keep the order they had in the input. For two layers with the same
  startTime of which one has a z-index that is not a number, the comparator returns NaN.
\<close>

theorem sortedLayers_order:
  "mset (sortedLayers sc) = mset (s_layers sc)
   \<and> (list_all zNumeric (s_layers sc) \<longrightarrow>
        filter (\<lambda>l. layerKey l = k) (sortedLayers sc) = filter (\<lambda>l. layerKey l = k) (s_layers sc)
        \<and> (i < j \<and> j < length (sortedLayers sc) \<longrightarrow>
             l_startTime (sortedLayers sc ! i) \<le> l_startTime (sortedLayers sc ! j)
             \<and> (l_startTime (sortedLayers sc ! i) = l_startTime (sortedLayers sc ! j) \<longrightarrow>
                  zNumber (sortedLayers sc ! i) \<le> zNumber (sortedLayers sc ! j))))
   \<and> (l_startTime a = l_startTime b \<and> (\<not> zNumeric a \<or> \<not> zNumeric b) \<longrightarrow>
        compareLayers a b = NaN)"
proof -
  have "layerKey (sortedLayers sc ! i) \<le> layerKey (sortedLayers sc ! j)"
    if "list_all zNumeric (s_layers sc)" "i < j" "j < length (sortedLayers sc)"
  proof -
    have "map layerKey (sortedLayers sc) ! i \<le> map layerKey (sortedLayers sc) ! j"
      using that sortedLayers_sorted [of sc] by (simp add: sorted_iff_nth_mono del: nth_map)
    then show ?thesis using that by simp
  qed
  then show ?thesis
    using sortedLayers_mset [of sc] sortedLayers_stable [of sc k] compareLayers_NaN [of a b]
    by (auto simp: layerKey_le)
qed

text \<open>Two layers starting together, the one with z-index 1 given first: it ends up second.\<close>

theorem sortedLayers_order_witness:
  "list_all zNumeric (s_layers z_scene)
   \<and> (0::nat) < 1 \<and> 1 < length (sortedLayers z_scene)
   \<and> l_startTime (sortedLayers z_scene ! 0) = l_startTime (sortedLayers z_scene ! 1)
   \<and> zNumber (sortedLayers z_scene ! 0) \<le> zNumber (sortedLayers z_scene ! 1)
   \<and> map l_id (sortedLayers z_scene) = [''bottom'', ''top'']
   \<and> l_startTime (s_layers junk_scene ! 0) = l_startTime (s_layers junk_scene ! 1)
   \<and> \<not> zNumeric (s_layers junk_scene ! 1)
   \<and> compareLayers (s_layers junk_scene ! 0) (s_layers junk_scene ! 1) = NaN"
proof -
  have e: "sortedLayers z_scene =
             [text_layer ''bottom'' ''below'' (Some (Num 0)), text_layer ''top'' ''above'' (Some (Num 1))]"
    by (simp add: sortedLayers_def sortBy_def z_scene_def compareLayers_def zIndexOf_def
        text_layer_def num_or_def)
  have n: "list_all zNumeric (s_layers z_scene)"
    by (simp add: z_scene_def zNumeric_def zIndexOf_def text_layer_def num_or_def)
  have j: "l_startTime (s_layers junk_scene ! 0) = l_startTime (s_layers junk_scene ! 1)"
    "\<not> zNumeric (s_layers junk_scene ! 1)"
    by (simp_all add: junk_scene_def zNumeric_def zIndexOf_def text_layer_def)
  show ?thesis
    using n j sortedLayers_order [of z_scene "(0, 0)" 0 1 "s_layers junk_scene ! 0"
        "s_layers junk_scene ! 1"]
    by (simp add: e text_layer_def zNumber_def zIndexOf_def num_or_def)
qed

text \<open>
  Against claim C2 as stated: two layers with the same startTime and z-index, given in
  the order \<open>b\<close>, \<open>a\<close>, stay in that order; the id does not break the tie.
\<close>

theorem tie_keeps_input_order:
  "layerKey (s_layers tie_scene ! 0) = layerKey (s_layers tie_scene ! 1)
   \<and> map l_id (s_layers tie_scene) = [''b'', ''a'']
   \<and> map l_id (sortedLayers tie_scene) = [''b'', ''a'']"
  by (simp add: sortedLayers_def sortBy_def tie_scene_def compareLayers_def zIndexOf_def
      text_layer_def layerKey_def zNumber_def)

text \<open>
  A z-index that is not a number between two that are: the comparator returns NaN for
  both pairs of neighbours, the list stays as it is, and z-index 1 stays in front of
  z-index 0.
\<close>

lemma non_numeric_zindex_blocks_order:
  "map zIndexOf (s_layers junk_scene) = [Num 1, NaN, Num 0]
   \<and> compareLayers (s_layers junk_scene ! 1) (s_layers junk_scene ! 0) = NaN
   \<and> compareLayers (s_layers junk_scene ! 2) (s_layers junk_scene ! 1) = NaN
   \<and> map l_id (sortedLayers junk_scene) = [''one'', ''junk'', ''zero'']"
  by (simp add: sortedLayers_def sortBy_def junk_scene_def compareLayers_def zIndexOf_def
      text_layer_def num_or_def)

section \<open>The operations of a scene\<close>

lemma addLayer_Inr:
  "hasSource l \<Longrightarrow>
     addLayer fmt st ps l =
       Inr \<lparr>ps_inputs = ps_inputs ps @ map Media (case l_type l of Text \<Rightarrow> [] | _ \<Rightarrow> [the (l_source l)]),
            filterComplex = filterComplex ps @ concat (map (showOp fmt) (layerOps st (inputIndex ps) [l])),
            inputIndex = inputIndex ps + (case l_type l of Text \<Rightarrow> 0 | _ \<Rightarrow> 1)\<rparr>"
  by (cases "l_type l")
     (auto simp: addLayer_def addInput_def hasSource_def getImageFilter_def getVideoFilter_def
        getTextFilter_def)

lemma addLayer_Inl: "\<not> hasSource l \<Longrightarrow> addLayer fmt st ps l = Inl InputTypeError"
  by (cases "l_type l") (auto simp: addLayer_def addInput_def hasSource_def)

lemma layerOps_Cons:
  "layerOps st i (l # ls) =
     layerOps st i [l] @ layerOps st (i + (case l_type l of Text \<Rightarrow> 0 | _ \<Rightarrow> 1)) ls"
  by (cases "l_type l") simp_all

lemma addLayers_Inr:
  "list_all hasSource ls \<Longrightarrow>
     addLayers fmt st ps ls =
       Inr \<lparr>ps_inputs = ps_inputs ps
               @ map (\<lambda>l. Media (the (l_source l))) (filter (\<lambda>l. l_type l \<noteq> Text) ls),
            filterComplex = filterComplex ps @ concat (map (showOp fmt) (layerOps st (inputIndex ps) ls)),
            inputIndex = inputIndex ps + length (filter (\<lambda>l. l_type l \<noteq> Text) ls)\<rparr>"
proof (induction ls arbitrary: ps)
  case Nil
  then show ?case by simp
next
  case (Cons l ls)
  then have l: "hasSource l" and ls: "list_all hasSource ls" by simp_all
  show ?case
    unfolding addLayers.simps addLayer_Inr [OF l] sum.case Cons.IH [OF ls] layerOps_Cons [of st _ l ls]
    by (cases "l_type l") simp_all
qed

lemma addLayers_Inl:
  "\<not> list_all hasSource ls \<Longrightarrow> addLayers fmt st ps ls = Inl InputTypeError"
proof (induction ls arbitrary: ps)
  case Nil
  then show ?case by simp
next
  case (Cons l ls)
  show ?case
  proof (cases "hasSource l")
    case True
    then show ?thesis using Cons by (simp add: addLayer_Inr)
  next
    case False
    then show ?thesis by (simp add: addLayer_Inl)
  qed
qed

lemma hasSource_sortedLayers:
  "list_all hasSource (sortedLayers sc) = list_all hasSource (s_layers sc)"
  by (simp add: list_all_iff sortedLayers_set)

lemma sceneCommand_filter:
  "list_all hasSource (s_layers sc) \<Longrightarrow>
     map_sum id c_complexFilter (fst (sceneCommand fmt sc st wd i)) =
       Inr (if concat (map (showOp fmt) (sceneOps sc st)) = [] then None
            else Some (concat (map (showOp fmt) (sceneOps sc st))))"
  by (simp add: sceneCommand_def Let_def addLayers_Inr hasSource_sortedLayers sceneOps_def)

lemma sceneCommand_inputs:
  "list_all hasSource (s_layers sc) \<Longrightarrow>
     map_sum id c_inputs (fst (sceneCommand fmt sc st wd i)) =
       Inr (background fmt sc st
            # map (\<lambda>l. Media (the (l_source l))) (filter (\<lambda>l. l_type l \<noteq> Text) (sortedLayers sc)))"
  by (simp add: sceneCommand_def Let_def addLayers_Inr hasSource_sortedLayers)

lemma sceneCommand_throws:
  "\<not> list_all hasSource (s_layers sc) \<Longrightarrow>
     fst (sceneCommand fmt sc st wd i) = Inl InputTypeError"
  by (simp add: sceneCommand_def Let_def addLayers_Inl hasSource_sortedLayers)

text \<open>
  Claim C8: the command of a scene is a function of the scene, the settings, the working
  directory and the scene index alone, and planning again the scene that a first run has
  left behind (its layers sorted in place) gives the same command and the same scene.
\<close>

theorem planner_idempotent:
  "sceneCommand fmt (snd (sceneCommand fmt sc st wd i)) st wd i = sceneCommand fmt sc st wd i"
  by (simp add: sceneCommand_def Let_def sortedLayers_def sortBy_idem background_def)

lemma num_or_zero: "num_or v 0 = v"
  by (simp add: num_or_def)

lemma layerOps_window:
  "map op_window (layerOps st i ls) = map layerWindow (filter visual ls)"
  by (induction ls arbitrary: i)
     (auto simp: visual_def layerWindow_def imageOp_def videoOp_def textOp_def Let_def
           split: layer_type.splits)

lemma length_filter_sortedLayers:
  "length (filter P (sortedLayers sc)) = length (filter P (s_layers sc))"
proof -
  have "mset (filter P (sortedLayers sc)) = mset (filter P (s_layers sc))"
    by (simp add: sortedLayers_mset)
  then show ?thesis by (metis size_mset)
qed

lemma sortedLayers_duration: "sortedLayers (sc\<lparr>s_duration := d\<rparr>) = sortedLayers sc"
  by (simp add: sortedLayers_def)

lemma sceneOps_windows:
  "map op_window (sceneOps sc st) = map layerWindow (filter visual (sortedLayers sc))"
  by (simp add: sceneOps_def layerOps_window)

lemma sceneOps_layer:
  assumes "l \<in> set (s_layers sc)" "visual l"
  shows "\<exists>op \<in> set (sceneOps sc st).
           \<forall>t. op_active op t \<longleftrightarrow>
                 l_startTime l \<le> t \<and> t \<le> l_startTime l + num_or (l_duration l) 5"
proof -
  have "l \<in> set (sortedLayers sc)"
    using assms(1) by (simp add: sortedLayers_set)
  then have "layerWindow l \<in> set (map layerWindow (filter visual (sortedLayers sc)))"
    using assms(2) by simp
  then have "layerWindow l \<in> op_window ` set (sceneOps sc st)"
    using sceneOps_windows [of sc st] by (metis set_map)
  then obtain op where op: "op \<in> set (sceneOps sc st)" "op_window op = layerWindow l"
    by auto
  have "\<forall>t. op_active op t \<longleftrightarrow>
               l_startTime l \<le> t \<and> t \<le> l_startTime l + num_or (l_duration l) 5"
    by (simp add: op_active_def between_def op(2) layerWindow_def num_or_zero)
  with op(1) show ?thesis by blast
qed

text \<open>
  Claim C1, as the code has it. In a scene where every image, video and audio layer
  has a source, the filter of the command is the text of the operations of the scene,
  one for every image, video and text layer, whatever its startTime; the window of an
  operation is \<open>between(t, startTime, startTime + duration)\<close> (duration 5 when it is 0),
  closed at both ends, and no operation depends on the duration of the scene. In a
  scene where such a layer has no source, building the command throws and there is no
  operation at all.
\<close>

theorem window_not_clipped:
  "(list_all hasSource (s_layers sc) \<longrightarrow>
      map_sum id c_complexFilter (fst (sceneCommand fmt sc st wd i)) =
        Inr (if concat (map (showOp fmt) (sceneOps sc st)) = [] then None
             else Some (concat (map (showOp fmt) (sceneOps sc st))))
      \<and> map op_window (sceneOps sc st) = map layerWindow (filter visual (sortedLayers sc))
      \<and> length (sceneOps sc st) = length (filter visual (s_layers sc))
      \<and> sceneOps (sc\<lparr>s_duration := d\<rparr>) st = sceneOps sc st
      \<and> (l \<in> set (s_layers sc) \<and> visual l \<longrightarrow>
           (\<exists>op \<in> set (sceneOps sc st).
              \<forall>t. op_active op t \<longleftrightarrow>
                    l_startTime l \<le> t \<and> t \<le> l_startTime l + num_or (l_duration l) 5)))
   \<and> (\<not> list_all hasSource (s_layers sc) \<longrightarrow>
        fst (sceneCommand fmt sc st wd i) = Inl InputTypeError)"
proof -
  have len: "length (sceneOps sc st) = length (filter visual (s_layers sc))"
    using arg_cong [OF sceneOps_windows [of sc st], of length]
    by (simp add: length_filter_sortedLayers)
  have dur: "sceneOps (sc\<lparr>s_duration := d\<rparr>) st = sceneOps sc st"
    by (simp add: sceneOps_def sortedLayers_duration)
  show ?thesis
    using sceneCommand_filter [of sc fmt st wd i] sceneOps_windows [of sc st] len dur
      sceneOps_layer [of l sc st] sceneCommand_throws [of sc fmt st wd i]
    by blast
qed

text \<open>
  A layer of a 3 second scene that starts at 10 and lasts 2: enabled from 10 to 12; and
  a scene whose image layer has no source: no command.
\<close>

theorem window_not_clipped_witness:
  "list_all hasSource (s_layers late_scene)
   \<and> image_layer ''a'' 10 2 (Some ''a.png'') \<in> set (s_layers late_scene)
   \<and> visual (image_layer ''a'' 10 2 (Some ''a.png''))
   \<and> s_duration late_scene = 3
   \<and> length (sceneOps late_scene std_settings) = 1
   \<and> (\<exists>op \<in> set (sceneOps late_scene std_settings). \<forall>t. op_active op t \<longleftrightarrow> 10 \<le> t \<and> t \<le> 12)
   \<and> \<not> list_all hasSource (s_layers text_nosrc_scene)
   \<and> fst (sceneCommand fmtInt text_nosrc_scene std_settings ''/app/temp/render_j1'' 0) =
       Inl InputTypeError"
proof -
  have a: "list_all hasSource (s_layers late_scene)"
    "\<not> list_all hasSource (s_layers text_nosrc_scene)"
    by (simp_all add: late_scene_def text_nosrc_scene_def hasSource_def image_layer_def
        text_layer_def)
  show ?thesis
    using a
      window_not_clipped [of late_scene fmtInt std_settings "''/app/temp/render_j1''" 0 3
        "image_layer ''a'' 10 2 (Some ''a.png'')"]
      window_not_clipped [of text_nosrc_scene fmtInt std_settings "''/app/temp/render_j1''" 0 3
        "image_layer ''a'' 10 2 (Some ''a.png'')"]
    by (simp add: late_scene_def visual_def image_layer_def num_or_def)
qed

text \<open>
  Against claim C1 as stated: in a scene of duration 3, the layer that starts at 10 is
  planned all the same, with the window from 10 to 12, and is enabled at the instant 12.
\<close>

theorem late_layer_still_emitted:
  "s_duration late_scene = 3
   \<and> l_startTime (hd (s_layers late_scene)) = 10
   \<and> sceneOps late_scene std_settings = [Overlay ''img'' 1 100 50 0 0 10 12]
   \<and> op_active (hd (sceneOps late_scene std_settings)) 12
   \<and> map_sum id c_complexFilter
       (fst (sceneCommand fmtInt late_scene std_settings ''/app/temp/render_j1'' 0)) =
       Inr (Some (showOp fmtInt (Overlay ''img'' 1 100 50 0 0 10 12)))"
proof -
  have a: "s_duration late_scene = 3 \<and> l_startTime (hd (s_layers late_scene)) = 10
      \<and> sceneOps late_scene std_settings = [Overlay ''img'' 1 100 50 0 0 10 12]
      \<and> op_active (hd (sceneOps late_scene std_settings)) 12"
    by (simp add: late_scene_def sceneOps_def sortedLayers_def sortBy_def image_layer_def
        imageOp_def num_or_def op_active_def between_def)
  have b: "map_sum id c_complexFilter
       (fst (sceneCommand fmtInt late_scene std_settings ''/app/temp/render_j1'' 0)) =
       Inr (Some (showOp fmtInt (Overlay ''img'' 1 100 50 0 0 10 12)))"
    by code_simp
  show ?thesis using a b by blast
qed

section \<open>Quoted values\<close>

lemma readLiteral_plain:
  "apos \<notin> set body \<Longrightarrow> readLiteral (escapeQuotes body @ apos # rest) = Some (body, rest)"
  by (induction body) (auto simp: escapeQuotes_def)

lemma readEscaped_no_backslash:
  "bslash \<notin> set body \<Longrightarrow> readEscaped (escapeQuotes body @ apos # rest) = Some (body, rest)"
proof (induction body)
  case Nil
  then show ?case by (cases rest) (simp_all add: escapeQuotes_def)
next
  case (Cons c cs)
  then have ih: "readEscaped (escapeQuotes cs @ apos # rest) = Some (cs, rest)" by simp
  obtain d ds where nonempty: "escapeQuotes cs @ apos # rest = d # ds"
    by (cases "escapeQuotes cs @ apos # rest") simp_all
  have esc: "escapeQuotes (c # cs) = (if c = apos then [bslash, apos] else [c]) @ escapeQuotes cs"
    by (simp add: escapeQuotes_def)
  show ?case
  proof (cases "c = apos")
    case True
    have "readEscaped (bslash # apos # escapeQuotes cs @ apos # rest) =
            map_option (\<lambda>(v, r). (apos # v, r)) (readEscaped (escapeQuotes cs @ apos # rest))"
      by simp
    then show ?thesis unfolding esc using True ih by simp
  next
    case False
    moreover have "c \<noteq> bslash" using Cons.prems by auto
    ultimately have "readEscaped (c # d # ds) = map_option (\<lambda>(v, r). (c # v, r)) (readEscaped (d # ds))"
      by simp
    then show ?thesis using ih False by (simp add: esc nonempty [symmetric])
  qed
qed

text \<open>
  Under the tool's rule an apostrophe of the content alone ends the value: the content
  \<open>it's\<close> is read back as \<open>it\<close> and a backslash, with the rest of the content outside
  the quotes.
\<close>

lemma apostrophe_ends_literal_value:
  "readLiteral (drop 15 (getTextFilter fmtInt (text_layer ''q'' (''it'' @ [apos] @ ''s'') None)
                            std_settings)) =
     Some (''it'' @ [bslash],
           ''s'' @ [apos]
           @ textTail fmtInt (textOp (text_layer ''q'' (''it'' @ [apos] @ ''s'') None) std_settings))"
  by (simp add: getTextFilter_def textOp_def text_layer_def str_or_def escapeQuotes_def Let_def)

text \<open>
  Claim C7 at the content backslash-apostrophe: the replacement puts one more backslash
  in front of the apostrophe and leaves the first one alone, so the text value ends at
  that apostrophe under either way of reading it, and the closing apostrophe of the
  template opens a new quoted value that swallows the options behind it.
\<close>

theorem quote_after_backslash_breaks:
  "showOp fmtInt (textOp (text_layer ''q'' [bslash, apos] None) std_settings) =
     ''drawtext=text='' @ [apos, bslash, bslash, apos, apos]
     @ textTail fmtInt (textOp (text_layer ''q'' [bslash, apos] None) std_settings)
   \<and> readLiteral (drop 15 (getTextFilter fmtInt (text_layer ''q'' [bslash, apos] None) std_settings)) =
       Some ([bslash, bslash],
             apos # textTail fmtInt (textOp (text_layer ''q'' [bslash, apos] None) std_settings))
   \<and> readEscaped (drop 15 (getTextFilter fmtInt (text_layer ''q'' [bslash, apos] None) std_settings)) =
       Some ([bslash],
             apos # textTail fmtInt (textOp (text_layer ''q'' [bslash, apos] None) std_settings))"
  by (simp add: getTextFilter_def textOp_def text_layer_def str_or_def escapeQuotes_def Let_def)

section \<open>The calls of one execution\<close>

lemma progressOf_append: "progressOf (a @ b) = progressOf a @ progressOf b"
  by (induction a rule: progressOf.induct) simp_all

lemma statusesOf_append: "statusesOf (a @ b) = statusesOf a @ statusesOf b"
  by (induction a rule: statusesOf.induct) simp_all

lemma uploadsOf_append: "uploadsOf (a @ b) = uploadsOf a @ uploadsOf b"
  by (induction a rule: uploadsOf.induct) simp_all

lemma newEvents_append: "trace w' = trace w @ new \<Longrightarrow> newEvents w w' = new"
  by (simp add: newEvents_def)

lemma emit_fields:
  "trace (emit e w) = trace w @ [e]" "disk (emit e w) = disk w"
  "rows (emit e w) = rows w" "queue (emit e w) = queue w"
  by (simp_all add: emit_def)

lemma updateProgress_fields:
  "trace (updateProgress jid p w) = trace w @ [ProgressSet jid p]"
  "disk (updateProgress jid p w) = disk w" "rows (updateProgress jid p w) = rows w"
  by (simp_all add: updateProgress_def emit_fields)

lemma updateJobStatus_fields:
  "trace (updateJobStatus jid s w) = trace w @ [StatusSet jid s]"
  "disk (updateJobStatus jid s w) = disk w"
  "queue (updateJobStatus jid s w) = queue w"
  "rows (updateJobStatus jid s w) jid = (case rows w jid of None \<Rightarrow> None | Some old \<Rightarrow> Some s)"
  by (simp_all add: updateJobStatus_def emit_fields split: option.splits)

lemma renderScene_fields:
  "trace (fst (renderScene ev sc st wd i w)) =
     trace w @ (case fst (sceneCommand (numFmt ev) sc st wd i) of
                  Inl e \<Rightarrow> [] | Inr cmd \<Rightarrow> [RunFfmpeg cmd])"
  "rows (fst (renderScene ev sc st wd i w)) = rows w"
  "p \<in> set (disk w) \<Longrightarrow> p \<in> set (disk (fst (renderScene ev sc st wd i w)))"
  by (simp_all add: renderScene_def Let_def emit_fields split: sum.splits)

lemma progress_step:
  assumes "i < n"
  shows "5 + of_nat i / of_nat n * 80 \<le> (5::rat) + of_nat (i + 1) / of_nat n * 80"
    and "(5::rat) + of_nat i / of_nat n * 80 \<le> 85"
    and "(5::rat) \<le> 5 + of_nat i / of_nat n * 80"
proof -
  define q :: rat where "q = of_nat i / of_nat n"
  define q' :: rat where "q' = of_nat (i + 1) / of_nat n"
  have n: "(0::rat) < of_nat n" using assms by simp
  have "q \<le> q'"
    unfolding q_def q'_def using n by (simp add: divide_le_cancel)
  then show "5 + of_nat i / of_nat n * 80 \<le> (5::rat) + of_nat (i + 1) / of_nat n * 80"
    unfolding q_def [symmetric] q'_def [symmetric] by linarith
  have "q \<le> 1"
    unfolding q_def using assms n by simp
  then show "(5::rat) + of_nat i / of_nat n * 80 \<le> 85"
    unfolding q_def [symmetric] by linarith
  have "0 \<le> q" unfolding q_def by simp
  then show "(5::rat) \<le> 5 + of_nat i / of_nat n * 80"
    unfolding q_def [symmetric] by linarith
qed

lemma renderScenes_run:
  assumes "i + length scs \<le> n"
  shows "\<exists>new. trace (fst (renderScenes ev jid st wd n i scs files w)) = trace w @ new
           \<and> sorted (progressOf new)
           \<and> (\<forall>v \<in> set (progressOf new). 5 + of_nat i / of_nat n * 80 \<le> v \<and> v \<le> 85)
           \<and> statusesOf new = [] \<and> uploadsOf new = [] \<and> Rm wd \<notin> set new"
  using assms
proof (induction scs arbitrary: i files w)
  case Nil
  then show ?case by simp
next
  case (Cons sc rest)
  define run where "run = (case fst (sceneCommand (numFmt ev) sc st wd i) of
                              Inl e \<Rightarrow> [] | Inr cmd \<Rightarrow> [RunFfmpeg cmd])"
  have quiet: "progressOf run = []" "statusesOf run = []" "uploadsOf run = []" "Rm wd \<notin> set run"
    by (simp_all add: run_def split: sum.splits)
  obtain w1 r1 where rs: "renderScene ev sc st wd i w = (w1, r1)"
    by (cases "renderScene ev sc st wd i w")
  have t1: "trace w1 = trace w @ run"
    using renderScene_fields(1) [of ev sc st wd i w] rs by (simp add: run_def)
  show ?case
  proof (cases r1)
    case (Inl e)
    then show ?thesis using rs t1 quiet by simp
  next
    case (Inr f)
    let ?p = "5 + of_nat i / of_nat n * 80 :: rat"
    let ?w2 = "updateProgress jid ?p w1"
    have lt: "i < n" and le: "(i + 1) + length rest \<le> n" using Cons.prems by simp_all
    from Cons.IH [OF le, of "files @ [f]" ?w2]
    obtain new where new:
      "trace (fst (renderScenes ev jid st wd n (i + 1) rest (files @ [f]) ?w2)) = trace ?w2 @ new"
      "sorted (progressOf new)"
      "\<forall>v \<in> set (progressOf new). 5 + of_nat (i + 1) / of_nat n * 80 \<le> v \<and> v \<le> 85"
      "statusesOf new = []" "uploadsOf new = []" "Rm wd \<notin> set new"
      by blast
    have mono: "\<forall>v \<in> set (progressOf new). ?p \<le> v \<and> v \<le> 85"
      using new(3) progress_step(1) [OF lt] by (meson order_trans)
    have "trace (fst (renderScenes ev jid st wd n i (sc # rest) files w)) =
            trace w @ (run @ ProgressSet jid ?p # new)"
      using rs Inr new(1) t1 by (simp add: updateProgress_fields)
    moreover have "sorted (progressOf (run @ ProgressSet jid ?p # new))"
      using new(2) mono quiet by (simp add: progressOf_append)
    moreover have "\<forall>v \<in> set (progressOf (run @ ProgressSet jid ?p # new)). ?p \<le> v \<and> v \<le> 85"
      using mono progress_step(2) [OF lt] quiet by (simp add: progressOf_append)
    moreover have "statusesOf (run @ ProgressSet jid ?p # new) = []"
      "uploadsOf (run @ ProgressSet jid ?p # new) = []"
      "Rm wd \<notin> set (run @ ProgressSet jid ?p # new)"
      using new(4,5,6) quiet by (simp_all add: statusesOf_append uploadsOf_append)
    ultimately show ?thesis by blast
  qed
qed

lemma renderScenes_keeps:
  "rows (fst (renderScenes ev jid st wd n i scs files w)) = rows w"
  "p \<in> set (disk w) \<Longrightarrow> p \<in> set (disk (fst (renderScenes ev jid st wd n i scs files w)))"
proof (induction scs arbitrary: i files w)
  case Nil
  { case 1 show ?case by simp }
  { case 2 then show ?case by simp }
next
  case (Cons sc rest)
  { case 1
    show ?case
      using renderScene_fields(2) [of ev sc st wd i w] Cons.IH(1)
      by (auto simp: updateProgress_fields split: prod.splits sum.splits)
  }
  { case 2
    then show ?case
      using renderScene_fields(3) [of p w ev sc st wd i] Cons.IH(2)
      by (auto simp: updateProgress_fields split: prod.splits sum.splits)
  }
qed

lemma concatenateScenes_cases:
  assumes "concatenateScenes ev fs st wd f w = (w1, r1)"
  shows "trace w1 = trace w @ [WriteFile (pathJoin wd ''scenes.txt'')
                                 (joinLines (map (\<lambda>file. ''file '' @ [apos] @ file @ [apos]) fs)),
                               RunConcat (pathJoin wd ''scenes.txt'')
                                 (pathJoin wd (''final_output.'' @ f))]"
    and "rows w1 = rows w"
    and "p \<in> set (disk w) \<Longrightarrow> p \<in> set (disk w1)"
    and "r1 = Inl ConcatError \<or> r1 = Inr (pathJoin wd (''final_output.'' @ f))"
  using assms
  by (auto simp: concatenateScenes_def Let_def emit_fields emit_def split: if_splits)

lemma uploadFinalVideo_cases:
  assumes "uploadFinalVideo ev path pid uid w = (w1, r1)"
  shows "disk w1 = disk w" and "rows w1 = rows w"
    and "trace w1 = trace w
         \<or> trace w1 = trace w @ [UploadFile ''videos''
                (pid @ ''_'' @ numFmt ev (of_int (now ev)) @ ''.mp4'') path ''video/mp4'']"
    and "r1 = Inl (ReadError path) \<or> r1 = Inl UploadError
         \<or> r1 = Inr (publicUrl ev (pid @ ''_'' @ numFmt ev (of_int (now ev)) @ ''.mp4''))"
  using assms
  by (auto simp: uploadFinalVideo_def Let_def emit_fields emit_def split: if_splits)

lemma cleanup_fields:
  "trace (cleanup ev wd w) = trace w @ [Rm wd]" "rows (cleanup ev wd w) = rows w"
  by (simp_all add: cleanup_def emit_fields)

lemma finishJob_run:
  "\<exists>new. trace (fst (finishJob ev jb wd out url w)) = trace w @ new
     \<and> progressOf new = [100] \<and> uploadsOf new = []
     \<and> statusesOf new = (if isl (snd (finishJob ev jb wd out url w)) then [] else [Completed])"
proof (cases "stat out (updateProgress (j_id jb) 100 (cleanup ev wd w))")
  case (Inl e)
  then have "finishJob ev jb wd out url w = (updateProgress (j_id jb) 100 (cleanup ev wd w), Inl e)"
    by (simp add: finishJob_def Let_def)
  then show ?thesis
    by (simp add: updateProgress_fields cleanup_fields)
next
  case (Inr u)
  then have "finishJob ev jb wd out url w =
      (updateJobStatus (j_id jb) Completed (updateProgress (j_id jb) 100 (cleanup ev wd w)),
       Inr \<lparr>r_success = True, r_outputUrl = url, r_projectId = projectId (j_data jb),
            r_jobId = j_id jb\<rparr>)"
    by (simp add: finishJob_def Let_def)
  then show ?thesis
    by (simp add: updateProgress_fields updateJobStatus_fields cleanup_fields)
qed

lemma publishJob_run:
  "\<exists>new. trace (fst (publishJob ev jb wd out w)) = trace w @ new
     \<and> (progressOf new = [95] \<and> isl (snd (publishJob ev jb wd out w))
        \<or> progressOf new = [95, 100])
     \<and> set (uploadsOf new) \<subseteq>
          {(projectId (j_data jb) @ ''_'' @ numFmt ev (of_int (now ev)) @ ''.mp4'', out, ''video/mp4'')}
     \<and> statusesOf new = (if isl (snd (publishJob ev jb wd out w)) then [] else [Completed])"
proof -
  let ?u = "UploadFile ''videos''
              (projectId (j_data jb) @ ''_'' @ numFmt ev (of_int (now ev)) @ ''.mp4'') out ''video/mp4''"
  obtain w1 r1 where up:
    "uploadFinalVideo ev out (projectId (j_data jb)) (userId (j_data jb))
       (updateProgress (j_id jb) 95 w) = (w1, r1)"
    by (cases "uploadFinalVideo ev out (projectId (j_data jb)) (userId (j_data jb))
                 (updateProgress (j_id jb) 95 w)")
  from uploadFinalVideo_cases(3) [OF up]
  have t1: "trace w1 = trace w @ [ProgressSet (j_id jb) 95]
            \<or> trace w1 = trace w @ [ProgressSet (j_id jb) 95, ?u]"
    by (simp add: updateProgress_fields)
  show ?thesis
  proof (cases r1)
    case (Inl e)
    then have "publishJob ev jb wd out w = (w1, Inl e)"
      by (simp add: publishJob_def up)
    then show ?thesis using t1 by auto
  next
    case (Inr url)
    then have eq: "publishJob ev jb wd out w = finishJob ev jb wd out url w1"
      by (simp add: publishJob_def up)
    from uploadFinalVideo_cases(3,4) [OF up] Inr
    have t1': "trace w1 = trace w @ [ProgressSet (j_id jb) 95]
               \<or> trace w1 = trace w @ [ProgressSet (j_id jb) 95, ?u]"
      by (simp add: updateProgress_fields)
    obtain nf where nf: "trace (fst (finishJob ev jb wd out url w1)) = trace w1 @ nf"
        "progressOf nf = [100]" "uploadsOf nf = []"
        "statusesOf nf = (if isl (snd (finishJob ev jb wd out url w1)) then [] else [Completed])"
      using finishJob_run [of ev jb wd out url w1] by blast
    from t1' show ?thesis
    proof
      assume a: "trace w1 = trace w @ [ProgressSet (j_id jb) 95]"
      show ?thesis
        by (rule exI [of _ "ProgressSet (j_id jb) 95 # nf"]) (simp add: eq nf a)
    next
      assume a: "trace w1 = trace w @ [ProgressSet (j_id jb) 95, ?u]"
      show ?thesis
        by (rule exI [of _ "ProgressSet (j_id jb) 95 # ?u # nf"]) (simp add: eq nf a)
    qed
  qed
qed

lemma assembleJob_run:
  "\<exists>new. trace (fst (assembleJob ev jb wd fs w)) = trace w @ new
     \<and> ((progressOf new = [85] \<or> progressOf new = [85, 95]) \<and> isl (snd (assembleJob ev jb wd fs w))
        \<or> progressOf new = [85, 95, 100])
     \<and> set (uploadsOf new) \<subseteq>
          {(projectId (j_data jb) @ ''_'' @ numFmt ev (of_int (now ev)) @ ''.mp4'',
            pathJoin wd (''final_output.'' @ outputFormat (j_data jb)), ''video/mp4'')}
     \<and> statusesOf new = (if isl (snd (assembleJob ev jb wd fs w)) then [] else [Completed])"
proof -
  define out where "out = pathJoin wd (''final_output.'' @ outputFormat (j_data jb))"
  define name where "name = projectId (j_data jb) @ ''_'' @ numFmt ev (of_int (now ev)) @ ''.mp4''"
  obtain w1 r1 where cc:
    "concatenateScenes ev fs (settings (j_data jb)) wd (outputFormat (j_data jb))
       (updateProgress (j_id jb) 85 w) = (w1, r1)"
    by (cases "concatenateScenes ev fs (settings (j_data jb)) wd (outputFormat (j_data jb))
                 (updateProgress (j_id jb) 85 w)")
  obtain a b where t1: "trace w1 = trace w @ [ProgressSet (j_id jb) 85, WriteFile a b, RunConcat a out]"
    using concatenateScenes_cases(1) [OF cc] by (simp add: updateProgress_fields out_def)
  have "\<exists>new. trace (fst (assembleJob ev jb wd fs w)) = trace w @ new
     \<and> ((progressOf new = [85] \<or> progressOf new = [85, 95]) \<and> isl (snd (assembleJob ev jb wd fs w))
        \<or> progressOf new = [85, 95, 100])
     \<and> set (uploadsOf new) \<subseteq> {(name, out, ''video/mp4'')}
     \<and> statusesOf new = (if isl (snd (assembleJob ev jb wd fs w)) then [] else [Completed])"
  proof (cases r1)
    case (Inl e)
    then have "assembleJob ev jb wd fs w = (w1, Inl e)"
      by (simp add: assembleJob_def cc)
    then show ?thesis using t1 by simp
  next
    case (Inr o1)
    then have o1: "o1 = out"
      using concatenateScenes_cases(4) [OF cc] by (simp add: out_def)
    have eq: "assembleJob ev jb wd fs w = publishJob ev jb wd out w1"
      using Inr o1 by (simp add: assembleJob_def cc)
    obtain np where np: "trace (fst (publishJob ev jb wd out w1)) = trace w1 @ np"
        "progressOf np = [95] \<and> isl (snd (publishJob ev jb wd out w1)) \<or> progressOf np = [95, 100]"
        "set (uploadsOf np) \<subseteq> {(name, out, ''video/mp4'')}"
        "statusesOf np = (if isl (snd (publishJob ev jb wd out w1)) then [] else [Completed])"
      using publishJob_run [of ev jb wd out w1] unfolding name_def by blast
    have tr: "trace (fst (assembleJob ev jb wd fs w)) =
                trace w @ (ProgressSet (j_id jb) 85 # WriteFile a b # RunConcat a out # np)"
      by (simp add: eq np(1) t1)
    have pr: "progressOf (ProgressSet (j_id jb) 85 # WriteFile a b # RunConcat a out # np) =
                85 # progressOf np"
      and up: "uploadsOf (ProgressSet (j_id jb) 85 # WriteFile a b # RunConcat a out # np) =
                uploadsOf np"
      and st: "statusesOf (ProgressSet (j_id jb) 85 # WriteFile a b # RunConcat a out # np) =
                statusesOf np"
      by simp_all
    show ?thesis
      apply (rule exI [of _ "ProgressSet (j_id jb) 85 # WriteFile a b # RunConcat a out # np"])
      unfolding pr up st
      using tr np(2,3,4) by (auto simp: eq)
  qed
  then show ?thesis unfolding out_def name_def .
qed

lemma tryBlock_run:
  "\<exists>new. trace (fst (tryBlock ev jb w)) =
            trace w @ StatusSet (j_id jb) Processing # ProgressSet (j_id jb) 5
                      # Mkdir (workDirOf ev jb) # new
     \<and> sorted (5 # progressOf new) \<and> (\<forall>v \<in> set (progressOf new). v \<le> 100)
     \<and> (\<not> isl (snd (tryBlock ev jb w)) \<longrightarrow> progressOf new \<noteq> [] \<and> last (progressOf new) = 100)
     \<and> set (uploadsOf new) \<subseteq>
           {(projectId (j_data jb) @ ''_'' @ numFmt ev (of_int (now ev)) @ ''.mp4'',
             pathJoin (workDirOf ev jb) (''final_output.'' @ outputFormat (j_data jb)),
             ''video/mp4'')}
     \<and> statusesOf new = (if isl (snd (tryBlock ev jb w)) then [] else [Completed])"
proof -
  let ?wd = "workDirOf ev jb"
  let ?w2 = "updateProgress (j_id jb) 5 (updateJobStatus (j_id jb) Processing w)"
  let ?w3 = "emit (Mkdir ?wd) (?w2\<lparr>disk := List.insert ?wd (disk ?w2)\<rparr>)"
  let ?loop = "renderScenes ev (j_id jb) (settings (j_data jb)) ?wd
                 (length (scenes (j_data jb))) 0 (scenes (j_data jb)) [] ?w3"
  have t3: "trace ?w3 = trace w @ [StatusSet (j_id jb) Processing, ProgressSet (j_id jb) 5, Mkdir ?wd]"
    by (simp add: emit_fields updateProgress_fields updateJobStatus_fields)
  obtain w4 r4 where loop: "?loop = (w4, r4)" by (cases ?loop)
  obtain L where L: "trace w4 = trace ?w3 @ L" "sorted (progressOf L)"
      "\<forall>v \<in> set (progressOf L). 5 \<le> v \<and> v \<le> 85"
      "statusesOf L = []" "uploadsOf L = []"
    using renderScenes_run [of 0 "scenes (j_data jb)" "length (scenes (j_data jb))" ev "j_id jb"
        "settings (j_data jb)" ?wd "[]" ?w3] loop
    by auto
  show ?thesis
  proof (cases r4)
    case (Inl e)
    then have "tryBlock ev jb w = (w4, Inl e)"
      using loop by (simp add: tryBlock_def Let_def)
    moreover have "\<forall>v \<in> set (progressOf L). v \<le> 100"
      using L(3) by force
    ultimately show ?thesis using L t3 by auto
  next
    case (Inr fs)
    then have eq: "tryBlock ev jb w = assembleJob ev jb ?wd fs w4"
      using loop by (simp add: tryBlock_def Let_def)
    obtain na where na: "trace (fst (assembleJob ev jb ?wd fs w4)) = trace w4 @ na"
        "(progressOf na = [85] \<or> progressOf na = [85, 95]) \<and> isl (snd (assembleJob ev jb ?wd fs w4))
          \<or> progressOf na = [85, 95, 100]"
        "set (uploadsOf na) \<subseteq>
          {(projectId (j_data jb) @ ''_'' @ numFmt ev (of_int (now ev)) @ ''.mp4'',
            pathJoin ?wd (''final_output.'' @ outputFormat (j_data jb)), ''video/mp4'')}"
        "statusesOf na = (if isl (snd (assembleJob ev jb ?wd fs w4)) then [] else [Completed])"
      using assembleJob_run [of ev jb ?wd fs w4] by blast
    have tr: "trace (fst (tryBlock ev jb w)) =
            trace w @ StatusSet (j_id jb) Processing # ProgressSet (j_id jb) 5 # Mkdir ?wd # (L @ na)"
      by (simp add: eq na(1) L(1) t3)
    have pr: "progressOf (L @ na) = progressOf L @ progressOf na"
      by (rule progressOf_append)
    have le: "\<forall>v \<in> set (progressOf L). 5 \<le> v \<and> v \<le> 85 \<and> v \<le> 95 \<and> v \<le> 100"
      using L(3) by force
    have srt: "sorted (5 # progressOf (L @ na))"
      using L(2) le na(2) by (auto simp: pr sorted_append)
    have bnd: "\<forall>v \<in> set (progressOf (L @ na)). v \<le> 100"
      using le na(2) by (auto simp: pr)
    have lst: "\<not> isl (snd (tryBlock ev jb w)) \<longrightarrow>
                progressOf (L @ na) \<noteq> [] \<and> last (progressOf (L @ na)) = 100"
      using na(2) by (auto simp: pr eq)
    have upl: "set (uploadsOf (L @ na)) \<subseteq>
          {(projectId (j_data jb) @ ''_'' @ numFmt ev (of_int (now ev)) @ ''.mp4'',
            pathJoin ?wd (''final_output.'' @ outputFormat (j_data jb)), ''video/mp4'')}"
      using na(3) L(5) by (simp add: uploadsOf_append)
    have sts: "statusesOf (L @ na) = (if isl (snd (tryBlock ev jb w)) then [] else [Completed])"
      using na(4) L(4) by (simp add: statusesOf_append eq)
    show ?thesis
      using tr srt bnd lst upl sts by blast
  qed
qed

section \<open>One execution of a job\<close>

lemma processRenderJob_run:
  "\<exists>new. newEvents w (fst (processRenderJob ev jb w)) =
            StatusSet (j_id jb) Processing # ProgressSet (j_id jb) 5 # Mkdir (workDirOf ev jb) # new
     \<and> sorted (5 # progressOf new) \<and> (\<forall>v \<in> set (progressOf new). v \<le> 100)
     \<and> (\<not> isl (snd (processRenderJob ev jb w)) \<longrightarrow>
          progressOf new \<noteq> [] \<and> last (progressOf new) = 100)
     \<and> set (uploadsOf new) \<subseteq>
           {(projectId (j_data jb) @ ''_'' @ numFmt ev (of_int (now ev)) @ ''.mp4'',
             pathJoin (workDirOf ev jb) (''final_output.'' @ outputFormat (j_data jb)),
             ''video/mp4'')}
     \<and> statusesOf new = (if isl (snd (processRenderJob ev jb w)) then [Failed] else [Completed])"
proof -
  define name where "name = projectId (j_data jb) @ ''_'' @ numFmt ev (of_int (now ev)) @ ''.mp4''"
  define out where "out = pathJoin (workDirOf ev jb) (''final_output.'' @ outputFormat (j_data jb))"
  obtain w1 r1 where tb: "tryBlock ev jb w = (w1, r1)" by (cases "tryBlock ev jb w")
  obtain new where new:
    "trace w1 = trace w @ StatusSet (j_id jb) Processing # ProgressSet (j_id jb) 5
                      # Mkdir (workDirOf ev jb) # new"
    "sorted (5 # progressOf new)" "\<forall>v \<in> set (progressOf new). v \<le> 100"
    "\<not> isl r1 \<longrightarrow> progressOf new \<noteq> [] \<and> last (progressOf new) = 100"
    "set (uploadsOf new) \<subseteq> {(name, out, ''video/mp4'')}"
    "statusesOf new = (if isl r1 then [] else [Completed])"
    using tryBlock_run [of ev jb w] tb unfolding name_def out_def by auto
  have "\<exists>new. newEvents w (fst (processRenderJob ev jb w)) =
            StatusSet (j_id jb) Processing # ProgressSet (j_id jb) 5 # Mkdir (workDirOf ev jb) # new
     \<and> sorted (5 # progressOf new) \<and> (\<forall>v \<in> set (progressOf new). v \<le> 100)
     \<and> (\<not> isl (snd (processRenderJob ev jb w)) \<longrightarrow>
          progressOf new \<noteq> [] \<and> last (progressOf new) = 100)
     \<and> set (uploadsOf new) \<subseteq> {(name, out, ''video/mp4'')}
     \<and> statusesOf new = (if isl (snd (processRenderJob ev jb w)) then [Failed] else [Completed])"
  proof (cases r1)
    case (Inl e)
    then have eq: "processRenderJob ev jb w = (updateJobStatus (j_id jb) Failed w1, Inl e)"
      by (simp add: processRenderJob_def tb)
    have "trace (fst (processRenderJob ev jb w)) =
            trace w @ StatusSet (j_id jb) Processing # ProgressSet (j_id jb) 5
                      # Mkdir (workDirOf ev jb) # (new @ [StatusSet (j_id jb) Failed])"
      by (simp add: eq updateJobStatus_fields new(1))
    then have ne: "newEvents w (fst (processRenderJob ev jb w)) =
            StatusSet (j_id jb) Processing # ProgressSet (j_id jb) 5
                      # Mkdir (workDirOf ev jb) # (new @ [StatusSet (j_id jb) Failed])"
      by (rule newEvents_append)
    show ?thesis
      apply (rule exI [of _ "new @ [StatusSet (j_id jb) Failed]"])
      unfolding ne
      using new(2,3,5,6) Inl
      by (simp add: eq progressOf_append uploadsOf_append statusesOf_append)
  next
    case (Inr r)
    then have eq: "processRenderJob ev jb w = (w1, Inr r)"
      by (simp add: processRenderJob_def tb)
    have ne: "newEvents w (fst (processRenderJob ev jb w)) =
            StatusSet (j_id jb) Processing # ProgressSet (j_id jb) 5
                      # Mkdir (workDirOf ev jb) # new"
      by (rule newEvents_append) (simp add: eq new(1))
    show ?thesis
      apply (rule exI [of _ new])
      unfolding ne
      using new(2,3,4,5,6) Inr by (simp add: eq)
  qed
  then show ?thesis unfolding name_def out_def .
qed

subsection \<open>The table of jobs\<close>

lemma updateJobStatus_dom:
  "(rows (updateJobStatus jid s w) k = None) = (rows w k = None)"
  by (simp add: updateJobStatus_def emit_fields split: option.splits)

lemma finishJob_dom:
  "(rows (fst (finishJob ev jb wd out url w)) k = None) = (rows w k = None)"
  by (simp add: finishJob_def Let_def updateJobStatus_dom updateProgress_fields cleanup_fields
      split: sum.splits)

lemma publishJob_dom:
  "(rows (fst (publishJob ev jb wd out w)) k = None) = (rows w k = None)"
proof -
  obtain w1 r1 where up:
    "uploadFinalVideo ev out (projectId (j_data jb)) (userId (j_data jb))
       (updateProgress (j_id jb) 95 w) = (w1, r1)"
    by (cases "uploadFinalVideo ev out (projectId (j_data jb)) (userId (j_data jb))
                 (updateProgress (j_id jb) 95 w)")
  have "rows w1 = rows w"
    using uploadFinalVideo_cases(2) [OF up] by (simp add: updateProgress_fields)
  then show ?thesis
    by (cases r1) (simp_all add: publishJob_def up finishJob_dom)
qed

lemma assembleJob_dom:
  "(rows (fst (assembleJob ev jb wd fs w)) k = None) = (rows w k = None)"
proof -
  obtain w1 r1 where cc:
    "concatenateScenes ev fs (settings (j_data jb)) wd (outputFormat (j_data jb))
       (updateProgress (j_id jb) 85 w) = (w1, r1)"
    by (cases "concatenateScenes ev fs (settings (j_data jb)) wd (outputFormat (j_data jb))
                 (updateProgress (j_id jb) 85 w)")
  have "rows w1 = rows w"
    using concatenateScenes_cases(2) [OF cc] by (simp add: updateProgress_fields)
  then show ?thesis
    by (cases r1) (simp_all add: assembleJob_def cc publishJob_dom)
qed

lemma tryBlock_dom:
  "(rows (fst (tryBlock ev jb w)) k = None) = (rows w k = None)"
proof -
  let ?w2 = "updateProgress (j_id jb) 5 (updateJobStatus (j_id jb) Processing w)"
  let ?w3 = "emit (Mkdir (workDirOf ev jb)) (?w2\<lparr>disk := List.insert (workDirOf ev jb) (disk ?w2)\<rparr>)"
  let ?loop = "renderScenes ev (j_id jb) (settings (j_data jb)) (workDirOf ev jb)
                 (length (scenes (j_data jb))) 0 (scenes (j_data jb)) [] ?w3"
  obtain w4 r4 where loop: "?loop = (w4, r4)" by (cases ?loop)
  have "rows w4 = rows ?w3"
    using renderScenes_keeps(1) [of ev "j_id jb" "settings (j_data jb)" "workDirOf ev jb"
        "length (scenes (j_data jb))" 0 "scenes (j_data jb)" "[]" ?w3] loop by simp
  then have r4: "(rows w4 k = None) = (rows w k = None)"
    by (simp add: emit_fields updateProgress_fields updateJobStatus_dom)
  show ?thesis
    using loop r4 by (cases r4) (simp_all add: tryBlock_def Let_def assembleJob_dom)
qed

lemma failure_row:
  assumes "isl (snd (processRenderJob ev jb w))" "rows w (j_id jb) \<noteq> None"
  shows "rows (fst (processRenderJob ev jb w)) (j_id jb) = Some Failed"
proof -
  obtain w1 r1 where tb: "tryBlock ev jb w = (w1, r1)" by (cases "tryBlock ev jb w")
  have "rows w1 (j_id jb) \<noteq> None"
    using tryBlock_dom [of ev jb w "j_id jb"] tb assms(2) by simp
  then show ?thesis
    using assms(1) tb
    by (cases r1) (auto simp: processRenderJob_def updateJobStatus_fields)
qed

section \<open>Cancelling\<close>

text \<open>
  Claim C3, as the code has it: cancelling a job id the queue does not hold fails with
  the not-found error and changes nothing. For a job the queue holds, whatever its
  persisted status: when the queue rejects the removal (a job that a worker holds
  locked), the request fails with that error and changes nothing; otherwise the job is
  removed from the queue, a persisted status of that job is set to cancelled, and the
  request succeeds. No status is exempt: there is no JobAlreadyTerminal error.
\<close>

theorem cancelRender_cases:
  "(queue w jobId = None \<longrightarrow> cancelRender rf jobId w = (w, Inl JobNotFound))
   \<and> (queue w jobId \<noteq> None \<and> rf \<longrightarrow> cancelRender rf jobId w = (w, Inl RemoveError))
   \<and> (queue w jobId \<noteq> None \<and> \<not> rf \<longrightarrow>
        snd (cancelRender rf jobId w) = Inr True
        \<and> queue (fst (cancelRender rf jobId w)) jobId = None
        \<and> (rows w jobId \<noteq> None \<longrightarrow> rows (fst (cancelRender rf jobId w)) jobId = Some Cancelled))"
  by (auto simp: cancelRender_def updateJobStatus_fields)

text \<open>
  A failed job that the queue still holds is cancelled like any other; a job the queue
  does not know is not found; a job in processing whose removal the queue rejects stays
  as it is.
\<close>

theorem cancelRender_cases_witness:
  "queue (world_of Failed) ''j1'' = Some 0 \<and> rows (world_of Failed) ''j1'' = Some Failed
   \<and> snd (cancelRender False ''j1'' (world_of Failed)) = Inr True
   \<and> queue (fst (cancelRender False ''j1'' (world_of Failed))) ''j1'' = None
   \<and> rows (fst (cancelRender False ''j1'' (world_of Failed))) ''j1'' = Some Cancelled
   \<and> queue (world_of Failed) ''j2'' = None
   \<and> snd (cancelRender False ''j2'' (world_of Failed)) = Inl JobNotFound
   \<and> queue (world_of Processing) ''j1'' = Some 0
   \<and> snd (cancelRender True ''j1'' (world_of Processing)) = Inl RemoveError
   \<and> rows (fst (cancelRender True ''j1'' (world_of Processing))) ''j1'' = Some Processing"
  using cancelRender_cases [of "world_of Failed" "''j1''" False]
    cancelRender_cases [of "world_of Failed" "''j2''" False]
    cancelRender_cases [of "world_of Processing" "''j1''" True]
  by (simp add: world_of_def)

text \<open>
  Against claim C3 as stated: a completed job that the queue still holds is cancelled
  with success, and its persisted status goes from completed to cancelled.
\<close>

theorem cancel_completed_job:
  "rows (world_of Completed) ''j1'' = Some Completed
   \<and> snd (cancelRender False ''j1'' (world_of Completed)) = Inr True
   \<and> rows (fst (cancelRender False ''j1'' (world_of Completed))) ''j1'' = Some Cancelled"
  by (simp add: cancelRender_def world_of_def updateJobStatus_def emit_def)

section \<open>Sources of media layers\<close>







section \<open>Failures and retries\<close>

lemma finishJob_attempts:
  "finishJob ev (jb\<lparr>attemptsMade := k\<rparr>) wd out url w = finishJob ev jb wd out url w"
  by (simp add: finishJob_def Let_def split: sum.splits)

lemma publishJob_attempts:
  "publishJob ev (jb\<lparr>attemptsMade := k\<rparr>) wd out w = publishJob ev jb wd out w"
  by (simp add: publishJob_def finishJob_attempts split: prod.splits sum.splits)

lemma assembleJob_attempts:
  "assembleJob ev (jb\<lparr>attemptsMade := k\<rparr>) wd fs w = assembleJob ev jb wd fs w"
  by (simp add: assembleJob_def publishJob_attempts split: prod.splits sum.splits)

lemma tryBlock_attempts:
  "tryBlock ev (jb\<lparr>attemptsMade := k\<rparr>) w = tryBlock ev jb w"
  by (simp add: tryBlock_def Let_def workDirOf_def assembleJob_attempts
      split: prod.splits sum.splits)

lemma processRenderJob_attempts:
  "processRenderJob ev (jb\<lparr>attemptsMade := k\<rparr>) w = processRenderJob ev jb w"
  by (simp add: processRenderJob_def tryBlock_attempts split: prod.splits sum.splits)

lemma failure_statuses:
  "isl (snd (processRenderJob ev jb w)) \<Longrightarrow>
     statusesOf (newEvents w (fst (processRenderJob ev jb w))) = [Processing, Failed]"
  using processRenderJob_run [of w ev jb] by auto

text \<open>
  Claim C5, as the code has it: the queue is configured with 3 attempts and an
  exponential backoff from 5000 ms; an execution that ends in an error, whatever the
  error and however many attempts have been made so far, sets the persisted status to
  processing at its start and to failed at its end, and rethrows the error to the
  queue. The number of attempts made has no influence on what an execution does.
\<close>

theorem failure_recorded_every_attempt:
  "attempts defaultJobOptions = 3
   \<and> backoff defaultJobOptions = \<lparr>bo_type = ''exponential'', bo_delay = 5000\<rparr>
   \<and> processRenderJob ev (jb\<lparr>attemptsMade := k\<rparr>) w = processRenderJob ev jb w
   \<and> (isl (snd (processRenderJob ev jb w)) \<longrightarrow>
        statusesOf (newEvents w (fst (processRenderJob ev jb w))) = [Processing, Failed]
        \<and> (rows w (j_id jb) \<noteq> None \<longrightarrow>
             rows (fst (processRenderJob ev jb w)) (j_id jb) = Some Failed))"
  using failure_statuses [of ev jb w] failure_row [of ev jb w]
    processRenderJob_attempts [where ev = ev and jb = jb and k = k and w = w]
  by (simp add: defaultJobOptions_def)

text \<open>The first attempt of a job whose only scene fails to render.\<close>

theorem failure_recorded_every_attempt_witness:
  "isl (snd (processRenderJob env_scene_fails (job_of [hello_scene] ''mp4'') (world_of Queued)))
   \<and> rows (world_of Queued) (j_id (job_of [hello_scene] ''mp4'')) = Some Queued
   \<and> statusesOf (newEvents (world_of Queued)
        (fst (processRenderJob env_scene_fails (job_of [hello_scene] ''mp4'') (world_of Queued)))) =
       [Processing, Failed]
   \<and> rows (fst (processRenderJob env_scene_fails (job_of [hello_scene] ''mp4'') (world_of Queued)))
        (j_id (job_of [hello_scene] ''mp4'')) = Some Failed"
proof -
  have a: "isl (snd (processRenderJob env_scene_fails (job_of [hello_scene] ''mp4'') (world_of Queued)))"
    by code_simp
  have b: "rows (world_of Queued) (j_id (job_of [hello_scene] ''mp4'')) = Some Queued"
    by code_simp
  show ?thesis
    using a b failure_recorded_every_attempt
      [where ev = env_scene_fails and jb = "job_of [hello_scene] ''mp4''" and k = 0
         and w = "world_of Queued"]
    by simp
qed

text \<open>
  Against claim C5 as stated: on the first of the three attempts, with two attempts
  left, a failing concatenation is recorded as failed at once.
\<close>

theorem failed_on_first_attempt:
  "attemptsMade (job_of [hello_scene] ''mp4'') + 1 < attempts defaultJobOptions
   \<and> snd (processRenderJob env_concat_fails (job_of [hello_scene] ''mp4'') (world_of Queued)) =
       Inl ConcatError
   \<and> statusesOf (trace (fst (processRenderJob env_concat_fails (job_of [hello_scene] ''mp4'')
                               (world_of Queued)))) = [Processing, Failed]
   \<and> rows (fst (processRenderJob env_concat_fails (job_of [hello_scene] ''mp4'') (world_of Queued)))
        ''j1'' = Some Failed"
  by code_simp

section \<open>The working directory\<close>

lemma finishJob_error: "snd (finishJob ev jb wd out url w) = Inl e \<Longrightarrow> e = StatError out"
  by (simp add: finishJob_def Let_def stat_def split: if_splits)

lemma publishJob_keeps:
  assumes "snd (publishJob ev jb wd out w) = Inl e" "e \<noteq> StatError out" "p \<in> set (disk w)"
  shows "p \<in> set (disk (fst (publishJob ev jb wd out w)))"
proof -
  obtain w1 r1 where up:
    "uploadFinalVideo ev out (projectId (j_data jb)) (userId (j_data jb))
       (updateProgress (j_id jb) 95 w) = (w1, r1)"
    by (cases "uploadFinalVideo ev out (projectId (j_data jb)) (userId (j_data jb))
                 (updateProgress (j_id jb) 95 w)")
  have d: "disk w1 = disk w"
    using uploadFinalVideo_cases(1) [OF up] by (simp add: updateProgress_fields)
  show ?thesis
  proof (cases r1)
    case (Inl e')
    then show ?thesis using assms(3) d by (simp add: publishJob_def up)
  next
    case (Inr url)
    then have "publishJob ev jb wd out w = finishJob ev jb wd out url w1"
      by (simp add: publishJob_def up)
    then show ?thesis using assms(1,2) finishJob_error [of ev jb wd out url w1 e] by simp
  qed
qed

lemma assembleJob_keeps:
  assumes "snd (assembleJob ev jb wd fs w) = Inl e" "\<forall>q. e \<noteq> StatError q" "p \<in> set (disk w)"
  shows "p \<in> set (disk (fst (assembleJob ev jb wd fs w)))"
proof -
  obtain w1 r1 where cc:
    "concatenateScenes ev fs (settings (j_data jb)) wd (outputFormat (j_data jb))
       (updateProgress (j_id jb) 85 w) = (w1, r1)"
    by (cases "concatenateScenes ev fs (settings (j_data jb)) wd (outputFormat (j_data jb))
                 (updateProgress (j_id jb) 85 w)")
  have d: "p \<in> set (disk w1)"
    using concatenateScenes_cases(3) [OF cc, of p] assms(3) by (simp add: updateProgress_fields)
  show ?thesis
  proof (cases r1)
    case (Inl e')
    then show ?thesis using d by (simp add: assembleJob_def cc)
  next
    case (Inr out)
    then have eq: "assembleJob ev jb wd fs w = publishJob ev jb wd out w1"
      by (simp add: assembleJob_def cc)
    show ?thesis
      using publishJob_keeps [of ev jb wd out w1 e p] assms(1,2) d by (simp add: eq)
  qed
qed

lemma error_keeps_workdir:
  assumes "snd (processRenderJob ev jb w) = Inl e" "\<forall>q. e \<noteq> StatError q"
  shows "workDirOf ev jb \<in> set (disk (fst (processRenderJob ev jb w)))"
proof -
  let ?wd = "workDirOf ev jb"
  let ?w2 = "updateProgress (j_id jb) 5 (updateJobStatus (j_id jb) Processing w)"
  let ?w3 = "emit (Mkdir ?wd) (?w2\<lparr>disk := List.insert ?wd (disk ?w2)\<rparr>)"
  let ?loop = "renderScenes ev (j_id jb) (settings (j_data jb)) ?wd
                 (length (scenes (j_data jb))) 0 (scenes (j_data jb)) [] ?w3"
  obtain w4 r4 where loop: "?loop = (w4, r4)" by (cases ?loop)
  have "?wd \<in> set (disk ?w3)" by (simp add: emit_fields)
  then have d4: "?wd \<in> set (disk w4)"
    using renderScenes_keeps(2) [of ?wd ?w3 ev "j_id jb" "settings (j_data jb)" ?wd
        "length (scenes (j_data jb))" 0 "scenes (j_data jb)" "[]"] loop by simp
  have "?wd \<in> set (disk (fst (tryBlock ev jb w)))"
  proof (cases r4)
    case (Inl e')
    then show ?thesis using loop d4 by (simp add: tryBlock_def Let_def)
  next
    case (Inr fs)
    then have eq: "tryBlock ev jb w = assembleJob ev jb ?wd fs w4"
      using loop by (simp add: tryBlock_def Let_def)
    have "snd (assembleJob ev jb ?wd fs w4) = Inl e"
      using assms(1) eq by (simp add: processRenderJob_def split: prod.splits sum.splits)
    then show ?thesis
      using assembleJob_keeps [of ev jb ?wd fs w4 e ?wd] assms(2) d4 by (simp add: eq)
  qed
  moreover obtain w1 r1 where "tryBlock ev jb w = (w1, r1)" by (cases "tryBlock ev jb w")
  ultimately show ?thesis
    by (cases r1) (simp_all add: processRenderJob_def updateJobStatus_fields)
qed

text \<open>
  When every step succeeds and the directory is removed, the size of the output is asked
  for after the removal: the execution reports 100 and then ends in the error of that
  read, recorded as failed.
\<close>

lemma size_read_after_cleanup:
  "snd (processRenderJob env_ok (job_of [hello_scene] ''mp4'') (world_of Queued)) =
     Inl (StatError ''/app/temp/render_j1/final_output.mp4'')
   \<and> progressOf (trace (fst (processRenderJob env_ok (job_of [hello_scene] ''mp4'')
                              (world_of Queued)))) = [5, 5, 85, 95, 100]
   \<and> statusesOf (trace (fst (processRenderJob env_ok (job_of [hello_scene] ''mp4'')
                              (world_of Queued)))) = [Processing, Failed]"
  by code_simp

text \<open>
  Claim C6 at a job whose only scene fails to render: the execution ends in the error
  of the render, the working directory it created is still on disk, and no removal was
  attempted; the same job without the failure does remove the directory.
\<close>

theorem workdir_left_after_failure:
  "snd (processRenderJob env_scene_fails (job_of [hello_scene] ''mp4'') (world_of Queued)) =
     Inl (SceneRenderError 0)
   \<and> ''/app/temp/render_j1'' \<in>
       set (disk (fst (processRenderJob env_scene_fails (job_of [hello_scene] ''mp4'')
                        (world_of Queued))))
   \<and> Rm ''/app/temp/render_j1'' \<notin>
       set (trace (fst (processRenderJob env_scene_fails (job_of [hello_scene] ''mp4'')
                         (world_of Queued))))
   \<and> Rm ''/app/temp/render_j1'' \<in>
       set (trace (fst (processRenderJob env_ok (job_of [hello_scene] ''mp4'') (world_of Queued))))
   \<and> disk (fst (processRenderJob env_ok (job_of [hello_scene] ''mp4'') (world_of Queued))) = []"
  by code_simp

section \<open>Progress\<close>





section \<open>The published file\<close>



end
